theory Spec2Isabelle
  imports Complex_Main
begin

section \<open>Python values handled by the Cricsheet transform\<close>

text \<open>
  The transform of \<^verbatim>\<open>cricsheet_scraper.py\<close> works on the value that
  \<^verbatim>\<open>json.loads\<close> returns: \<^verbatim>\<open>None\<close>, booleans, integers, strings, lists
  and dictionaries with string keys. A dictionary is an association list in insertion
  order; Python dictionaries have distinct keys, and lookup takes the first binding of a
  key. Strings are lists of code points below 256. JSON numbers are Python's unbounded
  integers, as the numbers of Cricsheet files are; numbers with a fraction are outside
  the model.
\<close>

datatype json =
    JNull
  | JBool bool
  | JInt int
  | JStr string
  | JList "json list"
  | JObj "(string \<times> json) list"

text \<open>The exceptions that the modelled code can raise and does not catch itself.\<close>

datatype py_error = AttributeError | TypeError | KeyError | IndexError | OverflowError

text \<open>Sequencing of statements that may raise: the first exception aborts the rest.\<close>

definition py_bind :: "py_error + 'a \<Rightarrow> ('a \<Rightarrow> py_error + 'b) \<Rightarrow> py_error + 'b" where
  "py_bind m f = (case m of Inl e \<Rightarrow> Inl e | Inr x \<Rightarrow> f x)"

text \<open>Truth value of an object, as tested by \<^verbatim>\<open>if x\<close>, \<^verbatim>\<open>not x\<close> and \<^verbatim>\<open>x or y\<close>.\<close>

fun truthy :: "json \<Rightarrow> bool" where
  "truthy JNull = False"
| "truthy (JBool b) = b"
| "truthy (JInt n) = (n \<noteq> 0)"
| "truthy (JStr s) = (s \<noteq> [])"
| "truthy (JList xs) = (xs \<noteq> [])"
| "truthy (JObj kvs) = (kvs \<noteq> [])"

definition py_or :: "json \<Rightarrow> json \<Rightarrow> json" where
  "py_or a b = (if truthy a then a else b)"

fun is_list :: "json \<Rightarrow> bool" where
  "is_list (JList xs) = True"
| "is_list _ = False"

text \<open>\<^verbatim>\<open>d.get(k, default)\<close>; an object that is no dictionary has no \<^verbatim>\<open>get\<close>.\<close>

definition dict_get :: "(string \<times> json) list \<Rightarrow> string \<Rightarrow> json \<Rightarrow> json" where
  "dict_get kvs k d = (case map_of kvs k of Some v \<Rightarrow> v | None \<Rightarrow> d)"

fun py_get :: "json \<Rightarrow> string \<Rightarrow> json \<Rightarrow> py_error + json" where
  "py_get (JObj kvs) k d = Inr (dict_get kvs k d)"
| "py_get _ k d = Inl AttributeError"

text \<open>\<^verbatim>\<open>k in d\<close> for a dictionary \<^verbatim>\<open>d\<close>.\<close>

definition has_key :: "(string \<times> json) list \<Rightarrow> string \<Rightarrow> bool" where
  "has_key kvs k = (map_of kvs k \<noteq> None)"

text \<open>
  The elements a \<^verbatim>\<open>for\<close> loop visits: the items of a list, the one-character
  strings of a string, the keys of a dictionary; other objects are not iterable.
\<close>

fun py_iter :: "json \<Rightarrow> py_error + json list" where
  "py_iter (JList xs) = Inr xs"
| "py_iter (JStr s) = Inr (map (\<lambda>c. JStr [c]) s)"
| "py_iter (JObj kvs) = Inr (map (\<lambda>kv. JStr (fst kv)) kvs)"
| "py_iter _ = Inl TypeError"

text \<open>An integer operand: \<^verbatim>\<open>bool\<close> is a subclass of \<^verbatim>\<open>int\<close>.\<close>

fun py_num :: "json \<Rightarrow> int option" where
  "py_num (JInt n) = Some n"
| "py_num (JBool b) = Some (if b then 1 else 0)"
| "py_num _ = None"

text \<open>\<^verbatim>\<open>a + b\<close>: integer addition, string and list concatenation, else TypeError.\<close>

fun py_add :: "json \<Rightarrow> json \<Rightarrow> py_error + json" where
  "py_add (JStr s) (JStr t) = Inr (JStr (s @ t))"
| "py_add (JList xs) (JList ys) = Inr (JList (xs @ ys))"
| "py_add a b =
     (case (py_num a, py_num b) of
        (Some m, Some n) \<Rightarrow> Inr (JInt (m + n))
      | _ \<Rightarrow> Inl TypeError)"

text \<open>
  \<^verbatim>\<open>a == b\<close>: \<^verbatim>\<open>True == 1\<close> holds, and dictionaries are compared without
  regard to the order of their keys.
\<close>

fun py_eq :: "json \<Rightarrow> json \<Rightarrow> bool" where
  "py_eq JNull b = (b = JNull)"
| "py_eq (JStr s) b = (b = JStr s)"
| "py_eq (JBool x) b = (py_num b = Some (if x then 1 else 0))"
| "py_eq (JInt n) b = (py_num b = Some n)"
| "py_eq (JList xs) (JList ys) = list_all2 py_eq xs ys"
| "py_eq (JList xs) _ = False"
| "py_eq (JObj kvs) (JObj lws) =
     (length kvs = length lws \<and>
      list_all (\<lambda>kv. case map_of lws (fst kv) of
                        None \<Rightarrow> False
                      | Some w \<Rightarrow> py_eq (snd kv) w) kvs)"
| "py_eq (JObj kvs) _ = False"

section \<open>Helpers of the source\<close>

subsection \<open>\<^verbatim>\<open>int(s)\<close> and \<^verbatim>\<open>s.split(".")\<close>\<close>

text \<open>
  The built-in \<^verbatim>\<open>int\<close> on a string: white space around the literal is dropped, a
  sign may come first, then decimal digits, where single underscores may stand between
  digits. ValueError is \<open>None\<close>. (The interpreter's configurable limit on the number of
  digits is not modelled.)
\<close>

definition is_space :: "char \<Rightarrow> bool" where
  "is_space c = (of_char c \<in> {9, 10, 11, 12, 13, 32, 133, 160 :: nat})"

definition is_digit :: "char \<Rightarrow> bool" where
  "is_digit c = (48 \<le> (of_char c :: nat) \<and> (of_char c :: nat) \<le> 57)"

definition digit_val :: "char \<Rightarrow> nat" where
  "digit_val c = of_char c - 48"

fun digits_val :: "nat \<Rightarrow> string \<Rightarrow> nat option" where
  "digits_val acc [] = Some acc"
| "digits_val acc (c # cs) =
     (if is_digit c then digits_val (10 * acc + digit_val c) cs
      else if c = CHR ''_'' then
        (case cs of
           [] \<Rightarrow> None
         | d # ds \<Rightarrow> if is_digit d then digits_val (10 * acc + digit_val d) ds else None)
      else None)"

definition strip :: "string \<Rightarrow> string" where
  "strip s = rev (dropWhile is_space (rev (dropWhile is_space s)))"

definition unsigned_int :: "string \<Rightarrow> nat option" where
  "unsigned_int s =
     (case s of
        [] \<Rightarrow> None
      | d # ds \<Rightarrow> if is_digit d then digits_val (digit_val d) ds else None)"

definition py_int :: "string \<Rightarrow> int option" where
  "py_int s =
     (case strip s of
        [] \<Rightarrow> None
      | c # cs \<Rightarrow>
          if c = CHR ''-'' then map_option (\<lambda>n. - int n) (unsigned_int cs)
          else if c = CHR ''+'' then map_option int (unsigned_int cs)
          else map_option int (unsigned_int (c # cs)))"

text \<open>\<^verbatim>\<open>s.split(sep)\<close> for a separator of one character: never an empty list.\<close>

fun split_on :: "char \<Rightarrow> string \<Rightarrow> string list" where
  "split_on sep [] = [[]]"
| "split_on sep (c # cs) =
     (if c = sep then [] # split_on sep cs
      else (c # hd (split_on sep cs)) # tl (split_on sep cs))"

subsection \<open>\<^verbatim>\<open>split_over_ball\<close>\<close>

text \<open>
  Lines 43 to 50. Unpacking the split into two names raises ValueError unless there
  are exactly two parts; every exception is caught and gives \<^verbatim>\<open>(None, None)\<close>.
\<close>

definition split_over_ball :: "string \<Rightarrow> int option \<times> int option" where
  "split_over_ball ball_str =
     (if CHR ''.'' \<in> set ball_str then
        (case split_on CHR ''.'' ball_str of
           [over_s, ball_s] \<Rightarrow>
             (case py_int over_s of
                None \<Rightarrow> (None, None)
              | Some over \<Rightarrow>
                  (case py_int ball_s of
                     None \<Rightarrow> (None, None)
                   | Some ball \<Rightarrow> (Some over, Some ball)))
         | _ \<Rightarrow> (None, None))
      else
        (case py_int ball_str of
           None \<Rightarrow> (None, None)
         | Some over \<Rightarrow> (Some over, Some 0)))"

subsection \<open>\<^verbatim>\<open>normalize_date\<close>\<close>

text \<open>
  \<^verbatim>\<open>datetime.fromisoformat\<close> belongs to the standard library and differs between
  its versions, so the model takes it as the parameter \<open>fromiso\<close>: the year, month and day
  of the parsed value, or \<open>None\<close> where the library raises ValueError.
  \<^verbatim>\<open>dt.date().isoformat()\<close> prints them as \<^verbatim>\<open>%04d-%02d-%02d\<close>.
\<close>

type_synonym isoparser = "string \<Rightarrow> (nat \<times> nat \<times> nat) option"

definition digit_char :: "nat \<Rightarrow> char" where
  "digit_char d = char_of (48 + d)"

fun show_nat :: "nat \<Rightarrow> string" where
  "show_nat n = (if n < 10 then [digit_char n] else show_nat (n div 10) @ [digit_char (n mod 10)])"

declare show_nat.simps [simp del]

definition zero_pad :: "nat \<Rightarrow> nat \<Rightarrow> string" where
  "zero_pad w n = replicate (w - length (show_nat n)) CHR ''0'' @ show_nat n"

definition date_isoformat :: "nat \<times> nat \<times> nat \<Rightarrow> string" where
  "date_isoformat ymd =
     (case ymd of (y, m, d) \<Rightarrow> zero_pad 4 y @ ''-'' @ zero_pad 2 m @ ''-'' @ zero_pad 2 d)"

text \<open>Lines 52 to 63. The result is a string or \<^verbatim>\<open>None\<close>.\<close>

definition normalize_date :: "isoparser \<Rightarrow> json \<Rightarrow> json" where
  "normalize_date fromiso date_obj =
     (if date_obj = JNull then JNull
      else
        let date_obj' =
              (case date_obj of
                 JList xs \<Rightarrow> (case xs of [] \<Rightarrow> JNull | x # _ \<Rightarrow> x)
               | _ \<Rightarrow> date_obj)
        in (case date_obj' of
              JStr s \<Rightarrow>
                (case fromiso s of
                   Some ymd \<Rightarrow> JStr (date_isoformat ymd)
                 | None \<Rightarrow> JStr (take 10 s))
            | _ \<Rightarrow> JNull))"

text \<open>
  The date-only form \<^verbatim>\<open>YYYY-MM-DD\<close> of the ISO parser, which every version of the
  library accepts; it instantiates the parameter in the examples.
\<close>

definition days_in_month :: "nat \<Rightarrow> nat \<Rightarrow> nat" where
  "days_in_month y m =
     (if m = 2 then (if y mod 4 = 0 \<and> (y mod 100 \<noteq> 0 \<or> y mod 400 = 0) then 29 else 28)
      else if m \<in> {4, 6, 9, 11} then 30 else 31)"

definition all_digits :: "string \<Rightarrow> nat option" where
  "all_digits s = (if s \<noteq> [] \<and> list_all is_digit s then digits_val 0 s else None)"

definition iso_date_only :: isoparser where
  "iso_date_only s =
     (if length s = 10 \<and> s ! 4 = CHR ''-'' \<and> s ! 7 = CHR ''-'' then
        (case (all_digits (take 4 s), all_digits (take 2 (drop 5 s)), all_digits (drop 8 s)) of
           (Some y, Some m, Some d) \<Rightarrow>
             if 1 \<le> y \<and> 1 \<le> m \<and> m \<le> 12 \<and> 1 \<le> d \<and> d \<le> days_in_month y m
             then Some (y, m, d) else None
         | _ \<Rightarrow> None)
      else None)"

subsection \<open>\<^verbatim>\<open>os.path.basename\<close> and \<^verbatim>\<open>os.path.splitext\<close> (POSIX)\<close>

definition rfind :: "char \<Rightarrow> string \<Rightarrow> int" where
  "rfind c s =
     (if c \<in> set s then int (length s) - 1 - int (length (takeWhile (\<lambda>x. x \<noteq> c) (rev s)))
      else - 1)"

definition basename :: "string \<Rightarrow> string" where
  "basename p = drop (nat (rfind CHR ''/'' p + 1)) p"

text \<open>The first component of \<^verbatim>\<open>splitext(p)\<close>: leading dots of the file name are no extension.\<close>

definition splitext_root :: "string \<Rightarrow> string" where
  "splitext_root p =
     (let sepIndex = rfind CHR ''/'' p; dotIndex = rfind CHR ''.'' p
      in if dotIndex > sepIndex \<and>
            \<not> list_all (\<lambda>c. c = CHR ''.'')
                (take (nat (dotIndex - (sepIndex + 1))) (drop (nat (sepIndex + 1)) p))
         then take (nat dotIndex) p
         else p)"

section \<open>Inning normalizers\<close>

text \<open>
  A normalized inning is the dictionary with the keys \<^verbatim>\<open>inning_number\<close>,
  \<^verbatim>\<open>team\<close> and \<^verbatim>\<open>deliveries\<close>; a delivery is the tuple
  \<^verbatim>\<open>(over_num, ball_num, ev)\<close>.
\<close>

type_synonym delivery = "json \<times> json \<times> json"

record norm_inning =
  n_inning_number :: int
  n_team :: json
  n_deliveries :: "delivery list"

definition opt_int :: "int option \<Rightarrow> json" where
  "opt_int x = (case x of None \<Rightarrow> JNull | Some n \<Rightarrow> JInt n)"

subsection \<open>\<^verbatim>\<open>parse_v1_innings\<close>, lines 182 to 199\<close>

text \<open>The inner loop, lines 191 to 197: an entry that is no dictionary, or an empty one, is passed over.\<close>

fun v1_deliveries :: "json list \<Rightarrow> delivery list" where
  "v1_deliveries [] = []"
| "v1_deliveries (entry # rest) =
     (case entry of
        JObj ((ball_key, ev) # _) \<Rightarrow>
          (case split_over_ball ball_key of
             (over_num, ball_num) \<Rightarrow> (opt_int over_num, opt_int ball_num, ev) # v1_deliveries rest)
      | _ \<Rightarrow> v1_deliveries rest)"

text \<open>The outer loop; \<open>idx\<close> is the counter of \<^verbatim>\<open>enumerate\<close>, which also counts passed entries.\<close>

fun parse_v1_loop :: "int \<Rightarrow> json list \<Rightarrow> py_error + norm_inning list" where
  "parse_v1_loop idx [] = Inr []"
| "parse_v1_loop idx (inn # rest) =
     (case inn of
        JObj ((name, data) # _) \<Rightarrow>
          py_bind (py_get data ''team'' JNull) (\<lambda>team.
          py_bind (py_get data ''deliveries'' (JList [])) (\<lambda>dl.
          py_bind (py_iter dl) (\<lambda>entries.
          py_bind (parse_v1_loop (idx + 1) rest) (\<lambda>more.
            Inr (\<lparr>n_inning_number = idx, n_team = team,
                  n_deliveries = v1_deliveries entries\<rparr> # more)))))
      | _ \<Rightarrow> parse_v1_loop (idx + 1) rest)"

definition parse_v1_innings :: "json \<Rightarrow> py_error + norm_inning list" where
  "parse_v1_innings innings_list = py_bind (py_iter innings_list) (parse_v1_loop 1)"

subsection \<open>\<^verbatim>\<open>parse_v2_innings\<close>, lines 201 to 211\<close>

text \<open>\<^verbatim>\<open>enumerate(xs, start=k)\<close>\<close>

definition enumerate_from :: "nat \<Rightarrow> 'a list \<Rightarrow> (int \<times> 'a) list" where
  "enumerate_from k xs = zip (map int [k ..< k + length xs]) xs"

definition v2_over :: "json \<Rightarrow> py_error + delivery list" where
  "v2_over over_blk =
     py_bind (py_get over_blk ''over'' JNull) (\<lambda>over_num.
     py_bind (py_get over_blk ''deliveries'' (JList [])) (\<lambda>dl.
     py_bind (py_iter dl) (\<lambda>evs.
       Inr (map (\<lambda>(i, ev). (over_num, JInt i, ev)) (enumerate_from 1 evs)))))"

fun v2_overs :: "json list \<Rightarrow> py_error + delivery list" where
  "v2_overs [] = Inr []"
| "v2_overs (over_blk # rest) =
     py_bind (v2_over over_blk) (\<lambda>ds.
     py_bind (v2_overs rest) (\<lambda>more. Inr (ds @ more)))"

fun parse_v2_loop :: "int \<Rightarrow> json list \<Rightarrow> py_error + norm_inning list" where
  "parse_v2_loop idx [] = Inr []"
| "parse_v2_loop idx (inn # rest) =
     py_bind (py_get inn ''team'' JNull) (\<lambda>team.
     py_bind (py_get inn ''overs'' (JList [])) (\<lambda>ov.
     py_bind (py_iter ov) (\<lambda>blks.
     py_bind (v2_overs blks) (\<lambda>ds.
     py_bind (parse_v2_loop (idx + 1) rest) (\<lambda>more.
       Inr (\<lparr>n_inning_number = idx, n_team = team, n_deliveries = ds\<rparr> # more))))))"

definition parse_v2_innings :: "json \<Rightarrow> py_error + norm_inning list" where
  "parse_v2_innings innings_list = py_bind (py_iter innings_list) (parse_v2_loop 1)"

subsection \<open>\<^verbatim>\<open>detect_and_parse_innings\<close>, lines 213 to 219\<close>

text \<open>\<^verbatim>\<open>x[0]\<close>: a dictionary of JSON has no key \<^verbatim>\<open>0\<close>, a number has no items.\<close>

fun py_index0 :: "json \<Rightarrow> py_error + json" where
  "py_index0 (JList xs) = (case xs of [] \<Rightarrow> Inl IndexError | x # _ \<Rightarrow> Inr x)"
| "py_index0 (JStr s) = (case s of [] \<Rightarrow> Inl IndexError | c # _ \<Rightarrow> Inr (JStr [c]))"
| "py_index0 (JObj kvs) = Inl KeyError"
| "py_index0 _ = Inl TypeError"

fun is_v2_first :: "json \<Rightarrow> bool" where
  "is_v2_first (JObj kvs) = (has_key kvs ''team'' \<and> has_key kvs ''overs'')"
| "is_v2_first _ = False"

definition detect_and_parse_innings :: "json \<Rightarrow> py_error + norm_inning list" where
  "detect_and_parse_innings innings_list =
     (if \<not> truthy innings_list then Inr []
      else
        py_bind (py_index0 innings_list) (\<lambda>first.
          if is_v2_first first then parse_v2_innings innings_list
          else parse_v1_innings innings_list))"

definition extract_country_from_venue :: "json \<Rightarrow> py_error + json" where
  "extract_country_from_venue info =
     py_bind (py_get info ''country'' JNull) (\<lambda>c. Inr (py_or c JNull))"

section \<open>Floats\<close>

text \<open>
  A Python float is an IEEE 754 double. A finite double is modelled by the rational
  number that it is, and the result of an operation is the exact result rounded to the
  nearest double, a tie going to the even significand: 53 bits of significand, the
  least exponent - 1022 (below it the spacing of the doubles stays \<open>2 ^ - 1074\<close>),
  and an infinity where the rounded magnitude reaches \<open>2 ^ 1024\<close>. The operations
  of the source are the conversion of an integer, the quotient by \<^verbatim>\<open>6.0\<close> and
  one sum. They give no NaN, and no negative zero: the integer 0 becomes the positive
  zero, a quotient by \<^verbatim>\<open>6.0\<close> is zero only for that operand, and a sum of two
  floats that are not both the negative zero is never the negative zero.
\<close>

datatype py_float = Finite rat | PosInf | NegInf

text \<open>The number of binary digits of a positive integer, as \<^verbatim>\<open>int.bit_length\<close> gives it.\<close>

function bit_length :: "int \<Rightarrow> int" where
  "bit_length n = (if n \<le> 0 then 0 else 1 + bit_length (n div 2))"
  by pat_completeness auto
termination
  by (relation "measure nat") auto

declare bit_length.simps [simp del]

definition two_pow :: "int \<Rightarrow> rat" where
  "two_pow k = (if 0 \<le> k then of_int (2 ^ nat k) else 1 / of_int (2 ^ nat (- k)))"

text \<open>For \<open>x > 0\<close>, the exponent \<open>e\<close> with \<open>2 ^ e \<le> x < 2 ^ (e + 1)\<close>.\<close>

definition floor_log2 :: "rat \<Rightarrow> int" where
  "floor_log2 x =
     (case quotient_of x of (p, q) \<Rightarrow>
        let d = bit_length p - bit_length q
        in if two_pow d \<le> x then d else d - 1)"

definition round_half_even :: "rat \<Rightarrow> int" where
  "round_half_even m =
     (let f = \<lfloor>m\<rfloor>; r = m - of_int f
      in if r < 1 / 2 then f else if 1 / 2 < r then f + 1 else if even f then f else f + 1)"

text \<open>The nearest double of a rational number, were the exponent unbounded above.\<close>

definition round_double :: "rat \<Rightarrow> rat" where
  "round_double x =
     (if x = 0 then 0
      else
        let e = max (floor_log2 \<bar>x\<bar>) (- 1022);
            ulp = two_pow (e - 52)
        in of_int (round_half_even (x / ulp)) * ulp)"

text \<open>The float that an operation with the exact result \<open>x\<close> returns.\<close>

definition double_overflow :: int where
  "double_overflow = 2 ^ 1024"

definition float_result :: "rat \<Rightarrow> py_float" where
  "float_result x =
     (let r = round_double x
      in if of_int double_overflow \<le> r then PosInf
         else if r \<le> - of_int double_overflow then NegInf
         else Finite r)"

text \<open>\<^verbatim>\<open>a / b\<close> for finite floats and \<open>b\<close> not zero; \<^verbatim>\<open>a + b\<close> for a finite \<open>a\<close>.\<close>

definition float_truediv :: "rat \<Rightarrow> rat \<Rightarrow> py_float" where
  "float_truediv a b = float_result (a / b)"

fun float_add :: "rat \<Rightarrow> py_float \<Rightarrow> py_float" where
  "float_add a (Finite b) = float_result (a + b)"
| "float_add a PosInf = PosInf"
| "float_add a NegInf = NegInf"

text \<open>
  An integer operand becomes a float when it meets one: it is rounded to the nearest
  double, and integers that round to \<open>2 ^ 1024\<close> or beyond raise OverflowError.
\<close>

definition float_int_bound :: int where
  "float_int_bound = 2 ^ 1024 - 2 ^ 970"

definition float_of_int :: "int \<Rightarrow> py_error + rat" where
  "float_of_int n =
     (if \<bar>n\<bar> < float_int_bound then Inr (round_double (of_int n)) else Inl OverflowError)"

definition float_of_num :: "json \<Rightarrow> py_error + rat" where
  "float_of_num x = (case py_num x of Some n \<Rightarrow> float_of_int n | None \<Rightarrow> Inl TypeError)"

section \<open>\<^verbatim>\<open>parse_match_json\<close>, lines 224 to 320\<close>

text \<open>The three kinds of rows; each is a dictionary with fixed keys in the source.\<close>

record match_row =
  m_match_id :: json
  m_match_type :: json
  m_match_date :: json
  m_venue :: json
  m_city :: json
  m_country :: json
  m_team1 :: json
  m_team2 :: json
  m_toss_winner :: json
  m_toss_decision :: json
  m_winner :: json
  m_result :: json
  m_margin :: json

text \<open>The field \<^verbatim>\<open>overs\<close> of an innings row is a float or \<^verbatim>\<open>None\<close>.\<close>

record innings_row =
  i_match_id :: json
  i_inning_number :: int
  i_batting_team :: json
  i_bowling_team :: json
  i_runs :: int
  i_wickets :: int
  i_overs :: "py_float option"

record delivery_row =
  d_match_id :: json
  d_inning_number :: int
  d_overs :: json
  d_ball :: json
  d_batting_team :: json
  d_bowling_team :: json
  d_batter :: json
  d_bowler :: json
  d_non_striker :: json
  d_runs_batter :: json
  d_runs_extras :: json
  d_runs_total :: json
  d_extras_type :: json
  d_wicket_kind :: json
  d_player_out :: json

subsection \<open>Match fields, lines 225 to 246\<close>

text \<open>\<^verbatim>\<open>team1, team2 = (teams + [None, None])[:2]\<close>: only a list can be added to a list.\<close>

definition team_pair :: "json \<Rightarrow> py_error + json \<times> json" where
  "team_pair teams =
     (case teams of
        JList ts \<Rightarrow>
          (case take 2 (ts @ [JNull, JNull]) of
             [team1, team2] \<Rightarrow> Inr (team1, team2)
           | _ \<Rightarrow> Inl TypeError)
      | _ \<Rightarrow> Inl TypeError)"

text \<open>\<^verbatim>\<open>(info.get(k, {}) or {}).get(f)\<close>\<close>

definition sub_field :: "json \<Rightarrow> string \<Rightarrow> string \<Rightarrow> py_error + json" where
  "sub_field info k f =
     py_bind (py_get info k (JObj [])) (\<lambda>x. py_get (py_or x (JObj [])) f JNull)"

subsection \<open>One delivery, lines 264 to 304\<close>

text \<open>Lines 267 to 270. The default \<^verbatim>\<open>rb + rext\<close> is computed before the lookup of the total.\<close>

definition ev_runs :: "json \<Rightarrow> py_error + json \<times> json \<times> json" where
  "ev_runs ev =
     py_bind (py_get ev ''runs'' JNull) (\<lambda>r.
     let runs = py_or r (JObj []) in
     py_bind (py_get runs ''batter'' (JInt 0)) (\<lambda>rb.
     py_bind (py_get runs ''extras'' (JInt 0)) (\<lambda>rext.
     py_bind (py_add rb rext) (\<lambda>dflt.
     py_bind (py_get runs ''total'' dflt) (\<lambda>rtot.
       Inr (rb, rext, rtot))))))"

text \<open>\<^verbatim>\<open>next(iter(x.keys()), None)\<close>\<close>

fun first_key :: "json \<Rightarrow> py_error + json" where
  "first_key (JObj kvs) = (case kvs of [] \<Rightarrow> Inr JNull | kv # _ \<Rightarrow> Inr (JStr (fst kv)))"
| "first_key _ = Inl AttributeError"

text \<open>Lines 272 and 273.\<close>

definition ev_extras_type :: "json \<Rightarrow> py_error + json" where
  "ev_extras_type ev =
     py_bind (py_get ev ''extras'' JNull) (\<lambda>x.
     let extras_obj = py_or x (JObj []) in
     if truthy extras_obj then first_key extras_obj else Inr JNull)"

text \<open>Lines 275 to 283: the flag, the kind and the dismissed player.\<close>

definition ev_wickets :: "json \<Rightarrow> py_error + int \<times> json \<times> json" where
  "ev_wickets ev =
     py_bind (py_get ev ''wickets'' JNull) (\<lambda>w1.
     py_bind (py_get ev ''wicket'' JNull) (\<lambda>w2.
     let wickets = py_or w1 w2 in
     if is_list wickets \<and> truthy wickets then
       py_bind (py_index0 wickets) (\<lambda>wk.
       py_bind (py_get wk ''kind'' JNull) (\<lambda>wicket_kind.
       py_bind (py_get wk ''player_out'' JNull) (\<lambda>player_out.
         Inr (1, wicket_kind, player_out))))
     else Inr (0, JNull, JNull)))"

text \<open>\<^verbatim>\<open>total_runs += rtot\<close>, where \<^verbatim>\<open>total_runs\<close> is an integer.\<close>

definition int_iadd :: "int \<Rightarrow> json \<Rightarrow> py_error + int" where
  "int_iadd acc x = (case py_num x of Some n \<Rightarrow> Inr (acc + n) | None \<Rightarrow> Inl TypeError)"

text \<open>The variables that the loop over the deliveries of an inning updates.\<close>

record inning_acc =
  total_runs :: int
  total_wkts :: int
  last_over :: json
  last_ball :: json

definition reduce_delivery ::
  "json \<Rightarrow> int \<Rightarrow> json \<Rightarrow> json \<Rightarrow> inning_acc \<Rightarrow> delivery \<Rightarrow> py_error + delivery_row \<times> inning_acc"
where
  "reduce_delivery match_id inning_number batting_team bowling_team acc d =
     (case d of (over_num, ball_num, ev) \<Rightarrow>
        let last_over' = (if over_num \<noteq> JNull then over_num else last_over acc);
            last_ball' = (if ball_num \<noteq> JNull then ball_num else last_ball acc)
        in
        py_bind (ev_runs ev) (\<lambda>(rb, rext, rtot).
        py_bind (ev_extras_type ev) (\<lambda>extras_type.
        py_bind (ev_wickets ev) (\<lambda>(wicket_flag, wicket_kind, player_out).
        py_bind (py_get ev ''batter'' JNull) (\<lambda>batter.
        py_bind (py_get ev ''bowler'' JNull) (\<lambda>bowler.
        py_bind (py_get ev ''non_striker'' JNull) (\<lambda>non_striker.
        py_bind (int_iadd (total_runs acc) rtot) (\<lambda>total_runs'.
          Inr (\<lparr>d_match_id = match_id, d_inning_number = inning_number,
                d_overs = over_num, d_ball = ball_num,
                d_batting_team = batting_team, d_bowling_team = bowling_team,
                d_batter = batter, d_bowler = bowler, d_non_striker = non_striker,
                d_runs_batter = rb, d_runs_extras = rext, d_runs_total = rtot,
                d_extras_type = extras_type, d_wicket_kind = wicket_kind,
                d_player_out = player_out\<rparr>,
               \<lparr>total_runs = total_runs', total_wkts = total_wkts acc + wicket_flag,
                last_over = last_over', last_ball = last_ball'\<rparr>)))))))))"

fun reduce_deliveries ::
  "json \<Rightarrow> int \<Rightarrow> json \<Rightarrow> json \<Rightarrow> inning_acc \<Rightarrow> delivery list
     \<Rightarrow> py_error + delivery_row list \<times> inning_acc"
where
  "reduce_deliveries match_id inning_number batting_team bowling_team acc [] = Inr ([], acc)"
| "reduce_deliveries match_id inning_number batting_team bowling_team acc (d # ds) =
     py_bind (reduce_delivery match_id inning_number batting_team bowling_team acc d)
       (\<lambda>(row, acc').
     py_bind (reduce_deliveries match_id inning_number batting_team bowling_team acc' ds)
       (\<lambda>(rows, acc''). Inr (row # rows, acc'')))"

subsection \<open>Overs of an inning, lines 306 to 308\<close>

text \<open>
  In \<open>overs_float\<close> the arguments \<open>lo\<close> and \<open>lb\<close> are the final
  \<^verbatim>\<open>last_over\<close> and \<^verbatim>\<open>last_ball\<close>. The quotient
  \<^verbatim>\<open>(last_ball or 0) / 6.0\<close> is computed first, then \<^verbatim>\<open>(last_over or 0)\<close>
  is converted and added to it.
\<close>

definition overs_float :: "json \<Rightarrow> json \<Rightarrow> py_error + py_float option" where
  "overs_float lo lb =
     (if lo \<noteq> JNull \<and> lb \<noteq> JNull then
        py_bind (float_of_num (py_or lb (JInt 0))) (\<lambda>b.
        py_bind (float_of_num (py_or lo (JInt 0))) (\<lambda>a.
          Inr (Some (float_add a (float_truediv b 6)))))
      else Inr None)"

subsection \<open>One inning and the whole record\<close>

definition init_acc :: inning_acc where
  "init_acc = \<lparr>total_runs = 0, total_wkts = 0, last_over = JInt 0, last_ball = JInt 0\<rparr>"

definition reduce_inning ::
  "json \<Rightarrow> json \<Rightarrow> json \<Rightarrow> norm_inning \<Rightarrow> py_error + innings_row \<times> delivery_row list"
where
  "reduce_inning match_id team1 team2 inn =
     (let batting_team = n_team inn;
          bowling_team = (if py_eq batting_team team1 then team2 else team1)
      in
      py_bind (reduce_deliveries match_id (n_inning_number inn) batting_team bowling_team
                 init_acc (n_deliveries inn)) (\<lambda>(rows, acc).
      py_bind (overs_float (last_over acc) (last_ball acc)) (\<lambda>overs.
        Inr (\<lparr>i_match_id = match_id, i_inning_number = n_inning_number inn,
              i_batting_team = batting_team, i_bowling_team = bowling_team,
              i_runs = total_runs acc, i_wickets = total_wkts acc, i_overs = overs\<rparr>,
             rows))))"

fun reduce_innings ::
  "json \<Rightarrow> json \<Rightarrow> json \<Rightarrow> norm_inning list \<Rightarrow> py_error + innings_row list \<times> delivery_row list"
where
  "reduce_innings match_id team1 team2 [] = Inr ([], [])"
| "reduce_innings match_id team1 team2 (inn # rest) =
     py_bind (reduce_inning match_id team1 team2 inn) (\<lambda>(irow, drows).
     py_bind (reduce_innings match_id team1 team2 rest) (\<lambda>(irows, drows').
       Inr (irow # irows, drows @ drows')))"

definition parse_match_json ::
  "isoparser \<Rightarrow> json \<Rightarrow> string
     \<Rightarrow> py_error + match_row \<times> innings_row list \<times> delivery_row list"
where
  "parse_match_json fromiso j match_path =
     py_bind (py_get j ''info'' (JObj [])) (\<lambda>info.
     py_bind (py_get info ''match_type'' JNull) (\<lambda>match_type.
     py_bind (py_get info ''match_id'' JNull) (\<lambda>mid.
     let match_id = py_or mid (JStr (splitext_root (basename match_path))) in
     py_bind (py_get info ''teams'' (JList [])) (\<lambda>teams.
     py_bind (team_pair teams) (\<lambda>(team1, team2).
     py_bind (py_get info ''dates'' JNull) (\<lambda>dates.
     py_bind (py_get info ''venue'' JNull) (\<lambda>venue.
     py_bind (py_get info ''city'' JNull) (\<lambda>city.
     py_bind (extract_country_from_venue info) (\<lambda>country.
     py_bind (sub_field info ''toss'' ''winner'') (\<lambda>toss_winner.
     py_bind (sub_field info ''toss'' ''decision'') (\<lambda>toss_decision.
     py_bind (sub_field info ''outcome'' ''winner'') (\<lambda>winner.
     py_bind (sub_field info ''outcome'' ''result'') (\<lambda>result.
     let match_row =
           \<lparr>m_match_id = match_id, m_match_type = match_type,
            m_match_date = normalize_date fromiso dates,
            m_venue = venue, m_city = city, m_country = country,
            m_team1 = team1, m_team2 = team2,
            m_toss_winner = toss_winner, m_toss_decision = toss_decision,
            m_winner = winner, m_result = result, m_margin = JNull\<rparr>
     in
     py_bind (py_get j ''innings'' (JList [])) (\<lambda>innings_src.
     py_bind (detect_and_parse_innings innings_src) (\<lambda>norm_innings.
     py_bind (reduce_innings match_id team1 team2 norm_innings)
       (\<lambda>(innings_rows, deliveries_rows).
         Inr (match_row, innings_rows, deliveries_rows)))))))))))))))))"

section \<open>Notions of the specification\<close>

text \<open>A value that is a list with at least one entry.\<close>

fun nonempty_list :: "json \<Rightarrow> bool" where
  "nonempty_list (JList xs) = (xs \<noteq> [])"
| "nonempty_list _ = False"

text \<open>
  The wicket value of an event: the field \<^verbatim>\<open>wickets\<close> where that is truthy, the
  field \<^verbatim>\<open>wicket\<close> otherwise. A delivery bears a wicket when the wicket value of its
  event is a non-empty list.
\<close>

fun wicket_value :: "json \<Rightarrow> json" where
  "wicket_value (JObj kvs) = py_or (dict_get kvs ''wickets'' JNull) (dict_get kvs ''wicket'' JNull)"
| "wicket_value _ = JNull"

definition wicket_bearing :: "delivery \<Rightarrow> bool" where
  "wicket_bearing d = nonempty_list (wicket_value (snd (snd d)))"

text \<open>The integer that a numeric value stands for.\<close>

definition num_value :: "json \<Rightarrow> int" where
  "num_value x = (case py_num x of Some n \<Rightarrow> n | None \<Rightarrow> 0)"

text \<open>The last entry of a sequence that is not \<^verbatim>\<open>None\<close>, and \<open>d\<close> where there is none.\<close>

definition last_non_null :: "json \<Rightarrow> json list \<Rightarrow> json" where
  "last_non_null d xs =
     (let ys = filter (\<lambda>x. x \<noteq> JNull) xs in if ys = [] then d else last ys)"

text \<open>
  A delivery of the example of the specification: an event with batter runs \<open>r\<close>, no
  extras and no wicket; and the over with the batter runs 0, 4, 1, 6, 0, 2.
\<close>

definition batter_runs_event :: "int \<Rightarrow> json" where
  "batter_runs_event r = JObj [(''runs'', JObj [(''batter'', JInt r)])]"

definition example_deliveries :: "delivery list" where
  "example_deliveries =
     [(JInt 0, JInt 1, batter_runs_event 0), (JInt 0, JInt 2, batter_runs_event 4),
      (JInt 0, JInt 3, batter_runs_event 1), (JInt 0, JInt 4, batter_runs_event 6),
      (JInt 0, JInt 5, batter_runs_event 0), (JInt 0, JInt 6, batter_runs_event 2)]"

text \<open>
  A record with one team name and one inning, in Dialect B, of a team that is not
  among the recorded names: \<^verbatim>\<open>{"info": {"teams": ["A"]}, "innings": [{"team": "C", "overs": []}]}\<close>.
\<close>

definition single_team_record :: json where
  "single_team_record =
     JObj [(''info'', JObj [(''teams'', JList [JStr ''A''])]),
           (''innings'', JList [JObj [(''team'', JStr ''C''), (''overs'', JList [])]])]"

text \<open>
  Records of Dialect B whose second inning entry is an empty dictionary, or
  \<^verbatim>\<open>null\<close>, and a record of Dialect A with both kinds of entries.
\<close>

definition b_record_with_empty_entry :: json where
  "b_record_with_empty_entry =
     JObj [(''info'', JObj [(''teams'', JList [JStr ''A'', JStr ''B''])]),
           (''innings'', JList [JObj [(''team'', JStr ''A''), (''overs'', JList [])], JObj []])]"

definition b_record_with_null_entry :: json where
  "b_record_with_null_entry =
     JObj [(''info'', JObj [(''teams'', JList [JStr ''A'', JStr ''B''])]),
           (''innings'', JList [JObj [(''team'', JStr ''A''), (''overs'', JList [])], JNull])]"

definition a_record_with_empty_entries :: json where
  "a_record_with_empty_entries =
     JObj [(''info'', JObj [(''teams'', JList [JStr ''A'', JStr ''B''])]),
           (''innings'',
            JList [JObj [(''1st innings'', JObj [(''team'', JStr ''A''), (''deliveries'', JList [])])],
                   JObj [], JNull])]"

text \<open>
  One logical match in the two dialects. A logical inning has the name that wraps it in
  Dialect A, its team and its overs; a logical over has its index and its balls, each
  with the label it carries in Dialect A and its event. Dialect A lists the balls of
  all overs under their labels; Dialect B keeps the overs with their indices and drops
  the labels. The two encodings describe the same match when each label names the over
  and the position of its ball in the over, counted from 1.
\<close>

type_synonym logical_over = "int \<times> (string \<times> json) list"

type_synonym logical_inning = "string \<times> json \<times> logical_over list"

definition dialect_a_over :: "logical_over \<Rightarrow> json list" where
  "dialect_a_over ov = (case ov of (over, balls) \<Rightarrow> map (\<lambda>(lbl, ev). JObj [(lbl, ev)]) balls)"

definition dialect_a_inning :: "logical_inning \<Rightarrow> json" where
  "dialect_a_inning li =
     (case li of (name, tm, overs) \<Rightarrow>
        JObj [(name, JObj [(''team'', tm),
                           (''deliveries'', JList (concat (map dialect_a_over overs)))])])"

definition dialect_b_over :: "logical_over \<Rightarrow> json" where
  "dialect_b_over ov =
     (case ov of (over, balls) \<Rightarrow>
        JObj [(''over'', JInt over), (''deliveries'', JList (map snd balls))])"

definition dialect_b_inning :: "logical_inning \<Rightarrow> json" where
  "dialect_b_inning li =
     (case li of (name, tm, overs) \<Rightarrow>
        JObj [(''team'', tm), (''overs'', JList (map dialect_b_over overs))])"

definition dialect_a_record :: "json \<Rightarrow> logical_inning list \<Rightarrow> json" where
  "dialect_a_record info lis = JObj [(''info'', info), (''innings'', JList (map dialect_a_inning lis))]"

definition dialect_b_record :: "json \<Rightarrow> logical_inning list \<Rightarrow> json" where
  "dialect_b_record info lis = JObj [(''info'', info), (''innings'', JList (map dialect_b_inning lis))]"

definition labels_agree :: "logical_over \<Rightarrow> bool" where
  "labels_agree ov =
     (case ov of (over, balls) \<Rightarrow>
        list_all (\<lambda>(i, lbl). split_over_ball lbl = (Some over, Some i))
          (enumerate_from 1 (map fst balls)))"

definition same_logical_match :: "logical_inning list \<Rightarrow> bool" where
  "same_logical_match lis = list_all (\<lambda>li. list_all labels_agree (snd (snd li))) lis"

text \<open>
  What dialect independence compares: for each innings row its number,
  the number of delivery rows of that inning, its runs and its wickets.
\<close>

definition inning_summaries ::
  "match_row \<times> innings_row list \<times> delivery_row list \<Rightarrow> (int \<times> nat \<times> int \<times> int) list"
where
  "inning_summaries out =
     (case out of (m, irows, drows) \<Rightarrow>
        map (\<lambda>r. (i_inning_number r,
                   length (filter (\<lambda>d. d_inning_number d = i_inning_number r) drows),
                   i_runs r, i_wickets r)) irows)"

text \<open>A logical match of one inning with two overs, and its information object.\<close>

definition example_match :: "logical_inning list" where
  "example_match =
     [(''1st innings'', JStr ''A'',
       [(0, [(''0.1'', batter_runs_event 4),
             (''0.2'', JObj [(''runs'', JObj [(''batter'', JInt 0), (''extras'', JInt 1), (''total'', JInt 1)]),
                            (''extras'', JObj [(''wides'', JInt 1)])])]),
        (1, [(''1.1'', JObj [(''wickets'', JList [JObj [(''kind'', JStr ''bowled''),
                                                        (''player_out'', JStr ''X'')]])])])])]"

definition example_info :: json where
  "example_info = JObj [(''teams'', JList [JStr ''A'', JStr ''B'']), (''dates'', JList [JStr ''2022-01-03''])]"

section \<open>Properties of the helpers\<close>

subsection \<open>Sequencing\<close>

lemma py_bind_Inr [simp]: "py_bind (Inr x) f = f x"
  by (simp add: py_bind_def)

lemma py_bind_Inl [simp]: "py_bind (Inl e) f = Inl e"
  by (simp add: py_bind_def)

lemma py_bind_eq_Inr: "py_bind m f = Inr y \<longleftrightarrow> (\<exists>x. m = Inr x \<and> f x = Inr y)"
  by (cases m) simp_all

subsection \<open>Splitting a ball label\<close>

lemma split_on_nonempty: "split_on sep s \<noteq> []"
  by (induction s) auto

lemma split_on_no_sep: "sep \<notin> set s \<Longrightarrow> split_on sep s = [s]"
  by (induction s) auto

lemma split_on_append: "sep \<notin> set a \<Longrightarrow> split_on sep (a @ sep # b) = a # split_on sep b"
  by (induction a) auto

lemma split_on_one: "split_on sep s = [y] \<Longrightarrow> s = y"
proof (induction s arbitrary: y)
  case Nil
  then show ?case by simp
next
  case (Cons c cs)
  then show ?case using split_on_nonempty[of sep cs]
    by (cases "split_on sep cs") (auto split: if_splits)
qed

lemma split_on_two: "split_on sep s = [x, y] \<Longrightarrow> s = x @ sep # y"
proof (induction s arbitrary: x)
  case Nil
  then show ?case by simp
next
  case (Cons c cs)
  then show ?case using split_on_nonempty[of sep cs] split_on_one[of sep cs y]
    by (cases "split_on sep cs") (auto split: if_splits)
qed

lemma digits_val_chars: "digits_val acc cs = Some n \<Longrightarrow> c \<in> set cs \<Longrightarrow> is_digit c \<or> c = CHR ''_''"
  by (induction acc cs rule: digits_val.induct) (auto split: if_splits list.splits)

lemma dot_not_digit: "\<not> is_digit CHR ''.''" "\<not> is_space CHR ''.''"
  by (simp_all add: is_digit_def is_space_def)

lemma dropWhile_keeps: "\<not> P c \<Longrightarrow> c \<in> set s \<Longrightarrow> c \<in> set (dropWhile P s)"
  by (induction s) auto

lemma strip_keeps: "\<not> is_space c \<Longrightarrow> c \<in> set s \<Longrightarrow> c \<in> set (strip s)"
  by (simp add: strip_def dropWhile_keeps)

lemma unsigned_int_no_dot: "unsigned_int s = Some n \<Longrightarrow> CHR ''.'' \<notin> set s"
  using digits_val_chars[of _ _ n "CHR ''.''"] dot_not_digit
  by (auto simp: unsigned_int_def split: list.splits if_splits)

lemma py_int_no_dot: "py_int s = Some n \<Longrightarrow> CHR ''.'' \<notin> set s"
proof
  assume a: "py_int s = Some n" and b: "CHR ''.'' \<in> set s"
  from b have "CHR ''.'' \<in> set (strip s)" by (simp add: strip_keeps dot_not_digit)
  then obtain c cs where cs: "strip s = c # cs" by (cases "strip s") auto
  show False
  proof (cases "c = CHR ''-'' \<or> c = CHR ''+''")
    case True
    with a cs obtain k where "unsigned_int cs = Some k" by (auto simp: py_int_def)
    then have "CHR ''.'' \<notin> set cs" by (rule unsigned_int_no_dot)
    with True cs \<open>CHR ''.'' \<in> set (strip s)\<close> show False by auto
  next
    case False
    with a cs obtain k where "unsigned_int (c # cs) = Some k" by (auto simp: py_int_def)
    then have "CHR ''.'' \<notin> set (c # cs)" by (rule unsigned_int_no_dot)
    with cs \<open>CHR ''.'' \<in> set (strip s)\<close> show False by simp
  qed
qed

text \<open>
  C3. With Python's \<^verbatim>\<open>int\<close> as \<open>py_int\<close>: a label made of two halves around a
  \<^verbatim>\<open>.\<close> that both parse as integers gives the pair of their values; a label without
  \<^verbatim>\<open>.\<close> that parses as the integer \<open>k\<close> gives \<open>(k, 0)\<close>; a label that is
  neither of the two gives \<open>(None, None)\<close>. The labels \<^verbatim>\<open>0.1\<close>, \<^verbatim>\<open>5\<close> and
  \<^verbatim>\<open>x.y\<close> give \<open>(0, 1)\<close>, \<open>(5, 0)\<close> and \<open>(None, None)\<close>.
\<close>

theorem split_over_ball_spec:
  "(py_int a = Some m \<and> py_int b = Some n \<longrightarrow>
      split_over_ball (a @ ''.'' @ b) = (Some m, Some n)) \<and>
   (CHR ''.'' \<notin> set s \<and> py_int s = Some k \<longrightarrow> split_over_ball s = (Some k, Some 0)) \<and>
   ((\<forall>x y. s = x @ ''.'' @ y \<longrightarrow> py_int x = None \<or> py_int y = None) \<and> py_int s = None \<longrightarrow>
      split_over_ball s = (None, None)) \<and>
   split_over_ball ''0.1'' = (Some 0, Some 1) \<and>
   split_over_ball ''5'' = (Some 5, Some 0) \<and>
   split_over_ball ''x.y'' = (None, None)"
proof (intro conjI impI)
  assume h: "py_int a = Some m \<and> py_int b = Some n"
  then have "CHR ''.'' \<notin> set a" "CHR ''.'' \<notin> set b" by (auto dest: py_int_no_dot)
  then have "split_on CHR ''.'' (a @ ''.'' @ b) = [a, b]"
    by (simp add: split_on_append split_on_no_sep)
  with h show "split_over_ball (a @ ''.'' @ b) = (Some m, Some n)"
    by (simp add: split_over_ball_def)
next
  assume "CHR ''.'' \<notin> set s \<and> py_int s = Some k"
  then show "split_over_ball s = (Some k, Some 0)" by (simp add: split_over_ball_def)
next
  assume h: "(\<forall>x y. s = x @ ''.'' @ y \<longrightarrow> py_int x = None \<or> py_int y = None) \<and> py_int s = None"
  show "split_over_ball s = (None, None)"
  proof (cases "CHR ''.'' \<in> set s")
    case False
    moreover from h have "py_int s = None" by (rule conjunct2)
    ultimately show ?thesis by (simp add: split_over_ball_def)
  next
    case True
    show ?thesis
    proof (cases "split_on CHR ''.'' s")
      case Nil
      with True show ?thesis by (simp add: split_over_ball_def)
    next
      case (Cons x qs)
      note px = Cons
      show ?thesis
      proof (cases qs)
        case Nil
        with True px show ?thesis by (simp add: split_over_ball_def)
      next
        case (Cons y rs)
        note py = Cons
        show ?thesis
        proof (cases rs)
          case Nil
          with px py have xy: "split_on CHR ''.'' s = [x, y]" by simp
          from split_on_two[OF xy] have sxy: "s = x @ ''.'' @ y" by simp
          have "py_int x = None \<or> py_int y = None"
            by (rule h[THEN conjunct1, rule_format, OF sxy])
          then show ?thesis
          proof
            assume "py_int x = None"
            with True xy show ?thesis by (simp add: split_over_ball_def)
          next
            assume "py_int y = None"
            with True xy show ?thesis
              by (cases "py_int x") (simp_all add: split_over_ball_def)
          qed
        next
          case (Cons z ts)
          with True px py show ?thesis by (simp add: split_over_ball_def)
        qed
      qed
    qed
  qed
next
  show "split_over_ball ''0.1'' = (Some 0, Some 1)" by code_simp
  show "split_over_ball ''5'' = (Some 5, Some 0)" by code_simp
  show "split_over_ball ''x.y'' = (None, None)" by code_simp
qed

theorem split_over_ball_spec_witness:
  "py_int ''12'' = Some 12 \<and> py_int ''3'' = Some 3 \<and> split_over_ball ''12.3'' = (Some 12, Some 3)
   \<and> CHR ''.'' \<notin> set ''7'' \<and> py_int ''7'' = Some 7 \<and> split_over_ball ''7'' = (Some 7, Some 0)
   \<and> py_int ''1.2.3'' = None \<and> split_over_ball ''1.2.3'' = (None, None)"
proof -
  have a: "py_int ''12'' = Some 12" "py_int ''3'' = Some 3" "py_int ''7'' = Some 7" by code_simp+
  have c: "py_int ''1.2.3'' = None" by code_simp
  have d: "\<forall>x y. ''1.2.3'' = x @ ''.'' @ y \<longrightarrow> py_int x = None \<or> py_int y = None"
  proof (intro allI impI)
    fix x y :: string assume e: "''1.2.3'' = x @ ''.'' @ y"
    show "py_int x = None \<or> py_int y = None"
    proof (rule ccontr)
      assume "\<not> (py_int x = None \<or> py_int y = None)"
      then have "CHR ''.'' \<notin> set x" "CHR ''.'' \<notin> set y" by (auto dest: py_int_no_dot)
      then have "split_on CHR ''.'' (x @ ''.'' @ y) = [x, y]"
        by (simp add: split_on_append split_on_no_sep)
      with e have "split_on CHR ''.'' ''1.2.3'' = [x, y]" by simp
      moreover have "length (split_on CHR ''.'' ''1.2.3'') = 3" by code_simp
      ultimately show False by simp
    qed
  qed
  have b: "CHR ''.'' \<notin> set ''7''" by simp
  have "py_int ''12'' = Some 12 \<and> py_int ''3'' = Some 3 \<longrightarrow>
        split_over_ball (''12'' @ ''.'' @ ''3'') = (Some 12, Some 3)"
    by (rule split_over_ball_spec[of "''12''" 12 "''3''" 3 "''7''" 7, THEN conjunct1])
  with a have r1: "split_over_ball (''12'' @ ''.'' @ ''3'') = (Some 12, Some 3)" by blast
  have "CHR ''.'' \<notin> set ''7'' \<and> py_int ''7'' = Some 7 \<longrightarrow>
        split_over_ball ''7'' = (Some 7, Some 0)"
    by (rule split_over_ball_spec[of "''12''" 12 "''3''" 3 "''7''" 7,
          THEN conjunct2, THEN conjunct1])
  with a b have r2: "split_over_ball ''7'' = (Some 7, Some 0)" by blast
  have "(\<forall>x y. ''1.2.3'' = x @ ''.'' @ y \<longrightarrow> py_int x = None \<or> py_int y = None) \<and>
        py_int ''1.2.3'' = None \<longrightarrow> split_over_ball ''1.2.3'' = (None, None)"
    by (rule split_over_ball_spec[of "''12''" 12 "''3''" 3 "''1.2.3''" 7,
          THEN conjunct2, THEN conjunct2, THEN conjunct1])
  with c d have r3: "split_over_ball ''1.2.3'' = (None, None)" by blast
  from r1 have r1': "split_over_ball ''12.3'' = (Some 12, Some 3)" by simp
  from a b c r1' r2 r3 show ?thesis by blast
qed

subsection \<open>The schema detector\<close>

lemma has_key_iff: "has_key kvs k \<longleftrightarrow> k \<in> fst ` set kvs"
  by (simp add: has_key_def map_of_eq_None_iff)

lemma is_v2_first_iff:
  "is_v2_first x \<longleftrightarrow> (\<exists>kvs. x = JObj kvs \<and> ''team'' \<in> fst ` set kvs \<and> ''overs'' \<in> fst ` set kvs)"
  by (cases x) (simp_all add: has_key_iff)

text \<open>
  C2. An empty inning list gives no normalized inning. A list whose first entry is a
  dictionary with both the keys \<^verbatim>\<open>team\<close> and \<^verbatim>\<open>overs\<close> is handed as a whole to
  \<open>parse_v2_innings\<close>, every other list as a whole to \<open>parse_v1_innings\<close>: the later
  entries play no part in the choice.
\<close>

theorem detect_and_parse_innings_spec:
  "detect_and_parse_innings (JList []) = Inr [] \<and>
   ((\<exists>kvs. first = JObj kvs \<and> ''team'' \<in> fst ` set kvs \<and> ''overs'' \<in> fst ` set kvs) \<longrightarrow>
      detect_and_parse_innings (JList (first # rest)) = parse_v2_innings (JList (first # rest))) \<and>
   (\<not> (\<exists>kvs. first = JObj kvs \<and> ''team'' \<in> fst ` set kvs \<and> ''overs'' \<in> fst ` set kvs) \<longrightarrow>
      detect_and_parse_innings (JList (first # rest)) = parse_v1_innings (JList (first # rest)))"
proof (intro conjI impI)
  show "detect_and_parse_innings (JList []) = Inr []"
    by (simp add: detect_and_parse_innings_def)
next
  assume "\<exists>kvs. first = JObj kvs \<and> ''team'' \<in> fst ` set kvs \<and> ''overs'' \<in> fst ` set kvs"
  then have "is_v2_first first" unfolding is_v2_first_iff .
  then show "detect_and_parse_innings (JList (first # rest)) = parse_v2_innings (JList (first # rest))"
    by (simp add: detect_and_parse_innings_def)
next
  assume "\<not> (\<exists>kvs. first = JObj kvs \<and> ''team'' \<in> fst ` set kvs \<and> ''overs'' \<in> fst ` set kvs)"
  then have "\<not> is_v2_first first" unfolding is_v2_first_iff .
  then show "detect_and_parse_innings (JList (first # rest)) = parse_v1_innings (JList (first # rest))"
    by (simp add: detect_and_parse_innings_def)
qed


theorem detect_and_parse_innings_spec_witness:
  "(\<exists>kvs. JObj [(''team'', JStr ''A''), (''overs'', JList [])] = JObj kvs \<and>
      ''team'' \<in> fst ` set kvs \<and> ''overs'' \<in> fst ` set kvs) \<and>
   detect_and_parse_innings
     (JList [JObj [(''team'', JStr ''A''), (''overs'', JList [])],
             JObj [(''1st innings'', JObj [(''team'', JStr ''B'')])]]) =
   Inr [\<lparr>n_inning_number = 1, n_team = JStr ''A'', n_deliveries = []\<rparr>,
        \<lparr>n_inning_number = 2, n_team = JNull, n_deliveries = []\<rparr>] \<and>
   \<not> (\<exists>kvs. JObj [(''1st innings'', JObj [(''team'', JStr ''B'')])] = JObj kvs \<and>
      ''team'' \<in> fst ` set kvs \<and> ''overs'' \<in> fst ` set kvs) \<and>
   detect_and_parse_innings
     (JList [JObj [(''1st innings'', JObj [(''team'', JStr ''B'')])], JObj []]) =
   Inr [\<lparr>n_inning_number = 1, n_team = JStr ''B'', n_deliveries = []\<rparr>]"
proof -
  let ?b = "JObj [(''team'', JStr ''A''), (''overs'', JList [])]"
  let ?a = "JObj [(''1st innings'', JObj [(''team'', JStr ''B'')])]"
  have hb: "\<exists>kvs. ?b = JObj kvs \<and> ''team'' \<in> fst ` set kvs \<and> ''overs'' \<in> fst ` set kvs"
    by simp
  have ha: "\<not> (\<exists>kvs. ?a = JObj kvs \<and> ''team'' \<in> fst ` set kvs \<and> ''overs'' \<in> fst ` set kvs)"
    by simp
  have "detect_and_parse_innings (JList [?b, ?a]) = parse_v2_innings (JList [?b, ?a])"
    using detect_and_parse_innings_spec[of ?b "[?a]", THEN conjunct2, THEN conjunct1] hb
    by (rule mp)
  also have "\<dots> = Inr [\<lparr>n_inning_number = 1, n_team = JStr ''A'', n_deliveries = []\<rparr>,
        \<lparr>n_inning_number = 2, n_team = JNull, n_deliveries = []\<rparr>]"
    by (simp add: parse_v2_innings_def dict_get_def)
  finally have r1: "detect_and_parse_innings (JList [?b, ?a]) =
      Inr [\<lparr>n_inning_number = 1, n_team = JStr ''A'', n_deliveries = []\<rparr>,
        \<lparr>n_inning_number = 2, n_team = JNull, n_deliveries = []\<rparr>]" .
  have "detect_and_parse_innings (JList [?a, JObj []]) = parse_v1_innings (JList [?a, JObj []])"
    using detect_and_parse_innings_spec[of ?a "[JObj []]", THEN conjunct2, THEN conjunct2] ha
    by (rule mp)
  also have "\<dots> = Inr [\<lparr>n_inning_number = 1, n_team = JStr ''B'', n_deliveries = []\<rparr>]"
    by (simp add: parse_v1_innings_def dict_get_def)
  finally have r2: "detect_and_parse_innings (JList [?a, JObj []]) =
      Inr [\<lparr>n_inning_number = 1, n_team = JStr ''B'', n_deliveries = []\<rparr>]" .
  from hb ha r1 r2 show ?thesis by (intro conjI)
qed


subsection \<open>Date normalization\<close>

text \<open>
  C7, as the code has it. An absent date (\<^verbatim>\<open>None\<close>) and an empty list give
  \<^verbatim>\<open>None\<close>; a string, or the first item of a list, that the ISO parser accepts gives
  the ISO date of the parsed value; one that the parser refuses gives its first ten
  characters. The list \<^verbatim>\<open>["2022-01-03", "2022-01-04"]\<close> gives \<^verbatim>\<open>2022-01-03\<close>, and
  \<^verbatim>\<open>2022/01/03XYZ\<close> gives the ten characters \<^verbatim>\<open>2022/01/03\<close>.
\<close>

theorem normalize_date_spec:
  "normalize_date fromiso JNull = JNull \<and>
   normalize_date fromiso (JList []) = JNull \<and>
   (fromiso s = Some ymd \<longrightarrow>
      normalize_date fromiso (JStr s) = JStr (date_isoformat ymd) \<and>
      normalize_date fromiso (JList (JStr s # rest)) = JStr (date_isoformat ymd)) \<and>
   (fromiso s = None \<longrightarrow>
      normalize_date fromiso (JStr s) = JStr (take 10 s) \<and>
      normalize_date fromiso (JList (JStr s # rest)) = JStr (take 10 s)) \<and>
   (fromiso ''2022-01-03'' = Some (2022, 1, 3) \<longrightarrow>
      normalize_date fromiso (JList [JStr ''2022-01-03'', JStr ''2022-01-04'']) = JStr ''2022-01-03'') \<and>
   (fromiso ''2022/01/03XYZ'' = None \<longrightarrow>
      normalize_date fromiso (JStr ''2022/01/03XYZ'') = JStr ''2022/01/03'')"
proof (intro conjI impI)
  show "normalize_date fromiso JNull = JNull" by (simp add: normalize_date_def)
  show "normalize_date fromiso (JList []) = JNull" by (simp add: normalize_date_def)
next
  assume "fromiso s = Some ymd"
  then show "normalize_date fromiso (JStr s) = JStr (date_isoformat ymd)"
    and "normalize_date fromiso (JList (JStr s # rest)) = JStr (date_isoformat ymd)"
    by (simp_all add: normalize_date_def)
next
  assume "fromiso s = None"
  then show "normalize_date fromiso (JStr s) = JStr (take 10 s)"
    and "normalize_date fromiso (JList (JStr s # rest)) = JStr (take 10 s)"
    by (simp_all add: normalize_date_def)
next
  have "date_isoformat (2022, 1, 3) = ''2022-01-03''" by code_simp
  moreover assume "fromiso ''2022-01-03'' = Some (2022, 1, 3)"
  ultimately show "normalize_date fromiso (JList [JStr ''2022-01-03'', JStr ''2022-01-04'']) = JStr ''2022-01-03''"
    by (simp add: normalize_date_def)
next
  assume "fromiso ''2022/01/03XYZ'' = None"
  then show "normalize_date fromiso (JStr ''2022/01/03XYZ'') = JStr ''2022/01/03''"
    by (simp add: normalize_date_def)
qed

theorem normalize_date_spec_witness:
  "iso_date_only ''2022-01-03'' = Some (2022, 1, 3) \<and>
   iso_date_only ''2022/01/03XYZ'' = None \<and>
   normalize_date iso_date_only (JStr ''2022-01-03'') = JStr ''2022-01-03'' \<and>
   normalize_date iso_date_only (JList [JStr ''2022-01-03'', JStr ''2022-01-04'']) = JStr ''2022-01-03'' \<and>
   normalize_date iso_date_only (JStr ''2022/01/03XYZ'') = JStr ''2022/01/03''"
proof -
  have a: "iso_date_only ''2022-01-03'' = Some (2022, 1, 3)" by code_simp
  have b: "iso_date_only ''2022/01/03XYZ'' = None" by code_simp
  have c: "date_isoformat (2022, 1, 3) = ''2022-01-03''" by code_simp
  note T = normalize_date_spec[of iso_date_only "''2022-01-03''" "(2022, 1, 3)" "[]"]
  from T a have "normalize_date iso_date_only (JStr ''2022-01-03'') = JStr (date_isoformat (2022, 1, 3))"
    by (elim conjE) (erule impE, assumption, erule conjunct1)
  with c have r1: "normalize_date iso_date_only (JStr ''2022-01-03'') = JStr ''2022-01-03''" by simp
  have r2: "normalize_date iso_date_only (JList [JStr ''2022-01-03'', JStr ''2022-01-04'']) = JStr ''2022-01-03''"
    by (rule T[THEN conjunct2, THEN conjunct2, THEN conjunct2, THEN conjunct2, THEN conjunct1, THEN mp, OF a])
  have r3: "normalize_date iso_date_only (JStr ''2022/01/03XYZ'') = JStr ''2022/01/03''"
    by (rule T[THEN conjunct2, THEN conjunct2, THEN conjunct2, THEN conjunct2, THEN conjunct2, THEN mp, OF b])
  from a b r1 r2 r3 show ?thesis by (intro conjI)
qed

text \<open>
  C7 as stated names \<^verbatim>\<open>2022/01/03X\<close> as the result for \<^verbatim>\<open>2022/01/03XYZ\<close>: that
  string has eleven characters, the slice \<^verbatim>\<open>date_obj[:10]\<close> returns ten.
\<close>

theorem normalize_date_prefix_counterexample:
  "iso_date_only ''2022/01/03XYZ'' = None \<and>
   normalize_date iso_date_only (JStr ''2022/01/03XYZ'') = JStr ''2022/01/03'' \<and>
   normalize_date iso_date_only (JStr ''2022/01/03XYZ'') \<noteq> JStr ''2022/01/03X''"
proof -
  have b: "iso_date_only ''2022/01/03XYZ'' = None" by code_simp
  then have c: "normalize_date iso_date_only (JStr ''2022/01/03XYZ'') = JStr ''2022/01/03''"
    by (simp add: normalize_date_def)
  from b c show ?thesis by simp
qed

section \<open>Properties of the event reducer\<close>

subsection \<open>One delivery\<close>

lemma py_get_Inr: "py_get x k d = Inr v \<longleftrightarrow> (\<exists>kvs. x = JObj kvs \<and> v = dict_get kvs k d)"
  by (cases x) auto

lemma reduce_delivery_Inr:
  assumes "reduce_delivery match_id n bt bw acc (over_num, ball_num, ev) = Inr (row, acc')"
  obtains rb rext rtot extras_type wicket_flag wicket_kind player_out kvs tr where
    "ev = JObj kvs"
    "ev_runs ev = Inr (rb, rext, rtot)"
    "ev_extras_type ev = Inr extras_type"
    "ev_wickets ev = Inr (wicket_flag, wicket_kind, player_out)"
    "int_iadd (total_runs acc) rtot = Inr tr"
    "row = \<lparr>d_match_id = match_id, d_inning_number = n,
                d_overs = over_num, d_ball = ball_num,
                d_batting_team = bt, d_bowling_team = bw,
                d_batter = dict_get kvs ''batter'' JNull, d_bowler = dict_get kvs ''bowler'' JNull,
                d_non_striker = dict_get kvs ''non_striker'' JNull,
                d_runs_batter = rb, d_runs_extras = rext, d_runs_total = rtot,
                d_extras_type = extras_type, d_wicket_kind = wicket_kind,
                d_player_out = player_out\<rparr>"
    "acc' = \<lparr>total_runs = tr, total_wkts = total_wkts acc + wicket_flag,
                last_over = (if over_num \<noteq> JNull then over_num else last_over acc),
                last_ball = (if ball_num \<noteq> JNull then ball_num else last_ball acc)\<rparr>"
  using assms
  by (auto simp: reduce_delivery_def py_bind_eq_Inr py_get_Inr Let_def)

lemma ev_runs_Inr:
  assumes "ev_runs (JObj kvs) = Inr (rb, rext, rtot)"
  obtains rk dflt where
    "py_or (dict_get kvs ''runs'' JNull) (JObj []) = JObj rk"
    "rb = dict_get rk ''batter'' (JInt 0)"
    "rext = dict_get rk ''extras'' (JInt 0)"
    "py_add rb rext = Inr dflt"
    "rtot = dict_get rk ''total'' dflt"
  using assms
  by (auto simp: ev_runs_def py_bind_eq_Inr py_get_Inr Let_def)

lemma first_key_truthy:
  "truthy x \<Longrightarrow> first_key x = Inr t \<Longrightarrow> \<exists>k v others. x = JObj ((k, v) # others) \<and> t = JStr k"
  by (cases x) (auto split: list.splits)

lemma ev_extras_type_Inr:
  assumes "ev_extras_type (JObj kvs) = Inr t"
  shows "t = (case dict_get kvs ''extras'' JNull of JObj (kv # others) \<Rightarrow> JStr (fst kv) | _ \<Rightarrow> JNull)"
proof (cases "truthy (dict_get kvs ''extras'' JNull)")
  case True
  with assms have "first_key (dict_get kvs ''extras'' JNull) = Inr t"
    by (simp add: ev_extras_type_def py_or_def)
  from first_key_truthy[OF True this] show ?thesis by auto
next
  case False
  with assms have "t = JNull" by (simp add: ev_extras_type_def py_or_def)
  with False show ?thesis
    by (cases "dict_get kvs ''extras'' JNull") (auto split: list.splits)
qed

lemma ev_wickets_Inr:
  assumes "ev_wickets (JObj kvs) = Inr (flag, kind, player)"
  shows "(nonempty_list (py_or (dict_get kvs ''wickets'' JNull) (dict_get kvs ''wicket'' JNull)) \<longrightarrow>
            flag = 1 \<and>
            (\<exists>wk others. py_or (dict_get kvs ''wickets'' JNull) (dict_get kvs ''wicket'' JNull)
                          = JList (JObj wk # others) \<and>
                        kind = dict_get wk ''kind'' JNull \<and>
                        player = dict_get wk ''player_out'' JNull)) \<and>
         (\<not> nonempty_list (py_or (dict_get kvs ''wickets'' JNull) (dict_get kvs ''wicket'' JNull)) \<longrightarrow>
            flag = 0 \<and> kind = JNull \<and> player = JNull)"
proof (cases "py_or (dict_get kvs ''wickets'' JNull) (dict_get kvs ''wicket'' JNull)")
  case (JList xs)
  with assms show ?thesis
    by (cases xs) (auto simp: ev_wickets_def py_bind_eq_Inr py_get_Inr Let_def)
qed (use assms in \<open>auto simp: ev_wickets_def Let_def\<close>)

subsection \<open>The deliveries of an inning\<close>

lemma last_non_null_Nil [simp]: "last_non_null d [] = d"
  by (simp add: last_non_null_def)

lemma last_non_null_Cons:
  "last_non_null d (x # xs) = last_non_null (if x \<noteq> JNull then x else d) xs"
  by (simp add: last_non_null_def Let_def)

lemma last_non_null_not_null: "d \<noteq> JNull \<Longrightarrow> last_non_null d xs \<noteq> JNull"
proof (induction xs arbitrary: d)
  case Nil
  then show ?case by simp
next
  case (Cons x xs)
  then show ?case by (simp add: last_non_null_Cons)
qed

lemma int_iadd_Inr: "int_iadd a x = Inr b \<Longrightarrow> b = a + num_value x"
  by (auto simp: int_iadd_def num_value_def split: option.splits)

lemma ev_wickets_flag:
  "ev_wickets (JObj kvs) = Inr (flag, kind, player) \<Longrightarrow>
   flag = (if nonempty_list (wicket_value (JObj kvs)) then 1 else 0)"
  using ev_wickets_Inr[of kvs flag kind player] by auto

lemma reduce_deliveries_Inr:
  "reduce_deliveries match_id n bt bw acc ds = Inr (rows, acc') \<Longrightarrow>
     map d_overs rows = map fst ds \<and>
     map d_ball rows = map (fst \<circ> snd) ds \<and>
     total_runs acc' = total_runs acc + sum_list (map (\<lambda>r. num_value (d_runs_total r)) rows) \<and>
     total_wkts acc' = total_wkts acc + int (length (filter wicket_bearing ds)) \<and>
     last_over acc' = last_non_null (last_over acc) (map fst ds) \<and>
     last_ball acc' = last_non_null (last_ball acc) (map (fst \<circ> snd) ds)"
proof (induction ds arbitrary: acc rows acc')
  case Nil
  then show ?case by simp
next
  case (Cons d ds)
  obtain over_num ball_num ev where d: "d = (over_num, ball_num, ev)" by (cases d) auto
  from Cons.prems obtain row acc1 rows1 where
    step: "reduce_delivery match_id n bt bw acc (over_num, ball_num, ev) = Inr (row, acc1)" and
    rest: "reduce_deliveries match_id n bt bw acc1 ds = Inr (rows1, acc')" and
    rows: "rows = row # rows1"
    by (auto simp: d py_bind_eq_Inr)
  note IH = Cons.IH[OF rest]
  from step obtain kvs rtot flag kind player tr where
    ev: "ev = JObj kvs" and
    wk: "ev_wickets ev = Inr (flag, kind, player)" and
    tr: "int_iadd (total_runs acc) rtot = Inr tr" and
    row: "d_overs row = over_num" "d_ball row = ball_num" "d_runs_total row = rtot" and
    acc1: "total_runs acc1 = tr" "total_wkts acc1 = total_wkts acc + flag"
          "last_over acc1 = (if over_num \<noteq> JNull then over_num else last_over acc)"
          "last_ball acc1 = (if ball_num \<noteq> JNull then ball_num else last_ball acc)"
    by (elim reduce_delivery_Inr) simp
  from wk[unfolded ev] have "flag = (if nonempty_list (wicket_value (JObj kvs)) then 1 else 0)"
    by (rule ev_wickets_flag)
  then have flag: "flag = (if wicket_bearing d then 1 else 0)"
    by (simp add: wicket_bearing_def d ev)
  from tr have tr': "tr = total_runs acc + num_value rtot" by (rule int_iadd_Inr)
  show ?case
    using IH rows row acc1 flag tr'
    by (simp add: d last_non_null_Cons)
qed


subsection \<open>Overs\<close>

lemma overs_float_not_None:
  "lo \<noteq> JNull \<Longrightarrow> lb \<noteq> JNull \<Longrightarrow> overs_float lo lb = Inr ov \<Longrightarrow> ov \<noteq> None"
  by (auto simp: overs_float_def py_bind_eq_Inr)

lemma float_of_num_or0: "float_of_num (py_or (JInt n) (JInt 0)) = float_of_int n"
  by (simp add: float_of_num_def py_or_def float_of_int_def)

lemma float_of_int_Inr: "float_of_int n = Inr x \<Longrightarrow> x = round_double (of_int n)"
  by (simp add: float_of_int_def split: if_splits)

lemma overs_float_ints:
  assumes "overs_float (JInt fo) (JInt fb) = Inr ov"
  shows "ov = Some (float_add (round_double (of_int fo))
                      (float_truediv (round_double (of_int fb)) 6))"
proof -
  from assms obtain a b where
    b: "float_of_int fb = Inr b" and a: "float_of_int fo = Inr a" and
    ov: "ov = Some (float_add a (float_truediv b 6))"
    by (auto simp: overs_float_def py_bind_eq_Inr float_of_num_or0)
  from float_of_int_Inr[OF a] float_of_int_Inr[OF b] ov show ?thesis by simp
qed

lemma overs_float_0: "overs_float (JInt 0) (JInt 0) = Inr (Some (Finite 0))"
  by code_simp

subsection \<open>One inning, all innings, the record\<close>

lemma reduce_inning_Inr:
  assumes "reduce_inning match_id team1 team2 inn = Inr (irow, drows)"
  obtains acc' where
    "reduce_deliveries match_id (n_inning_number inn) (n_team inn)
       (if py_eq (n_team inn) team1 then team2 else team1) init_acc (n_deliveries inn)
     = Inr (drows, acc')"
    "overs_float (last_over acc') (last_ball acc') = Inr (i_overs irow)"
    "i_runs irow = total_runs acc'"
    "i_wickets irow = total_wkts acc'"
    "i_match_id irow = match_id"
    "i_inning_number irow = n_inning_number inn"
    "i_batting_team irow = n_team inn"
    "i_bowling_team irow = (if py_eq (n_team inn) team1 then team2 else team1)"
  using assms
  by (auto simp: reduce_inning_def py_bind_eq_Inr Let_def)

lemma reduce_innings_Inr:
  "reduce_innings match_id team1 team2 ninns = Inr (irows, drows) \<Longrightarrow> r \<in> set irows \<Longrightarrow>
   \<exists>inn ds. inn \<in> set ninns \<and> reduce_inning match_id team1 team2 inn = Inr (r, ds)"
proof (induction ninns arbitrary: irows drows)
  case Nil
  then show ?case by simp
next
  case (Cons inn rest)
  from Cons.prems(1) obtain irow ds irows1 drows1 where
    one: "reduce_inning match_id team1 team2 inn = Inr (irow, ds)" and
    more: "reduce_innings match_id team1 team2 rest = Inr (irows1, drows1)" and
    irows: "irows = irow # irows1"
    by (auto simp: py_bind_eq_Inr)
  show ?case
  proof (cases "r = irow")
    case True
    with one show ?thesis by auto
  next
    case False
    with Cons.prems(2) irows have "r \<in> set irows1" by simp
    from Cons.IH[OF more this] show ?thesis by auto
  qed
qed

lemma team_pair_list:
  "team_pair (JList []) = Inr (JNull, JNull)"
  "team_pair (JList [a]) = Inr (a, JNull)"
  "team_pair (JList (a # b # ts)) = Inr (a, b)"
  by (simp_all add: team_pair_def)

lemma team_pair_Inr:
  assumes "team_pair teams = Inr (team1, team2)"
  shows "\<exists>ts. teams = JList ts \<and> team1 = (ts @ [JNull, JNull]) ! 0 \<and>
              team2 = (ts @ [JNull, JNull]) ! 1"
proof (cases teams)
  case (JList ts)
  show ?thesis
  proof (cases ts)
    case Nil
    with assms JList show ?thesis by (simp add: team_pair_list)
  next
    case (Cons a as)
    with assms JList show ?thesis by (cases as) (simp_all add: team_pair_list)
  qed
qed (use assms in \<open>simp_all add: team_pair_def\<close>)

lemma parse_match_json_Inr:
  assumes "parse_match_json fromiso j match_path = Inr (m, irows, drows)"
  obtains jk ik ninns where
    "j = JObj jk"
    "dict_get jk ''info'' (JObj []) = JObj ik"
    "team_pair (dict_get ik ''teams'' (JList [])) = Inr (m_team1 m, m_team2 m)"
    "m_match_id m = py_or (dict_get ik ''match_id'' JNull) (JStr (splitext_root (basename match_path)))"
    "m_match_date m = normalize_date fromiso (dict_get ik ''dates'' JNull)"
    "detect_and_parse_innings (dict_get jk ''innings'' (JList [])) = Inr ninns"
    "reduce_innings (m_match_id m) (m_team1 m) (m_team2 m) ninns = Inr (irows, drows)"
  using assms
  by (auto simp: parse_match_json_def py_bind_eq_Inr py_get_Inr Let_def)

lemma reduce_inning_overs_not_None:
  assumes "reduce_inning match_id team1 team2 inn = Inr (irow, drows)"
  shows "i_overs irow \<noteq> None"
proof -
  from assms obtain acc' where
    ds: "reduce_deliveries match_id (n_inning_number inn) (n_team inn)
           (if py_eq (n_team inn) team1 then team2 else team1) init_acc (n_deliveries inn)
         = Inr (drows, acc')" and
    ov: "overs_float (last_over acc') (last_ball acc') = Inr (i_overs irow)"
    by (rule reduce_inning_Inr)
  from reduce_deliveries_Inr[OF ds]
  have "last_over acc' \<noteq> JNull" "last_ball acc' \<noteq> JNull"
    by (simp_all add: init_acc_def last_non_null_not_null)
  from overs_float_not_None[OF this ov] show ?thesis .
qed

lemma single_team_record_rows:
  "parse_match_json iso_date_only single_team_record ''m.json'' =
     Inr (\<lparr>m_match_id = JStr ''m'', m_match_type = JNull, m_match_date = JNull,
           m_venue = JNull, m_city = JNull, m_country = JNull,
           m_team1 = JStr ''A'', m_team2 = JNull, m_toss_winner = JNull,
           m_toss_decision = JNull, m_winner = JNull, m_result = JNull, m_margin = JNull\<rparr>,
          [\<lparr>i_match_id = JStr ''m'', i_inning_number = 1,
            i_batting_team = JStr ''C'', i_bowling_team = JStr ''A'',
            i_runs = 0, i_wickets = 0, i_overs = Some (Finite 0)\<rparr>],
          [])"
  by code_simp

subsection \<open>The fields of a delivery row\<close>

text \<open>
  C4, as the code has it. For a delivery whose event is a dictionary and that the
  reducer processes without raising: the batter runs and the extra runs are the fields
  \<^verbatim>\<open>batter\<close> and \<^verbatim>\<open>extras\<close> of the runs object and 0 where absent; the total is
  the field \<^verbatim>\<open>total\<close> where present and otherwise the sum of the two; the extras type
  is the first key of a non-empty \<^verbatim>\<open>extras\<close> object and \<^verbatim>\<open>None\<close> otherwise. The
  wicket value is the field \<^verbatim>\<open>wickets\<close> where that is truthy and the field
  \<^verbatim>\<open>wicket\<close> otherwise. Exactly when the wicket value is a non-empty list, the
  delivery adds 1 to the wicket count, however many entries the list has, and the kind
  and the dismissed player come from the first entry; otherwise it adds nothing and both
  are \<^verbatim>\<open>None\<close>.
\<close>

theorem reduce_delivery_fields:
  assumes "reduce_delivery match_id n bt bw acc (over_num, ball_num, JObj kvs) = Inr (row, acc')"
  shows
    "(\<exists>rk. py_or (dict_get kvs ''runs'' JNull) (JObj []) = JObj rk \<and>
        d_runs_batter row = (case map_of rk ''batter'' of None \<Rightarrow> JInt 0 | Some v \<Rightarrow> v) \<and>
        d_runs_extras row = (case map_of rk ''extras'' of None \<Rightarrow> JInt 0 | Some v \<Rightarrow> v) \<and>
        (case map_of rk ''total'' of
           Some t \<Rightarrow> d_runs_total row = t
         | None \<Rightarrow> py_add (d_runs_batter row) (d_runs_extras row) = Inr (d_runs_total row))) \<and>
     d_extras_type row =
       (case dict_get kvs ''extras'' JNull of
          JObj (kv # others) \<Rightarrow> JStr (fst kv)
        | _ \<Rightarrow> JNull) \<and>
     (nonempty_list (py_or (dict_get kvs ''wickets'' JNull) (dict_get kvs ''wicket'' JNull)) \<longrightarrow>
        total_wkts acc' = total_wkts acc + 1 \<and>
        (\<exists>wk others.
           py_or (dict_get kvs ''wickets'' JNull) (dict_get kvs ''wicket'' JNull)
             = JList (JObj wk # others) \<and>
           d_wicket_kind row = dict_get wk ''kind'' JNull \<and>
           d_player_out row = dict_get wk ''player_out'' JNull)) \<and>
     (\<not> nonempty_list (py_or (dict_get kvs ''wickets'' JNull) (dict_get kvs ''wicket'' JNull)) \<longrightarrow>
        total_wkts acc' = total_wkts acc \<and> d_wicket_kind row = JNull \<and> d_player_out row = JNull)"
proof -
  from assms obtain rb rext rtot extras_type wicket_flag wicket_kind player_out tr where
    runs: "ev_runs (JObj kvs) = Inr (rb, rext, rtot)" and
    extras: "ev_extras_type (JObj kvs) = Inr extras_type" and
    wkts: "ev_wickets (JObj kvs) = Inr (wicket_flag, wicket_kind, player_out)" and
    row: "d_runs_batter row = rb" "d_runs_extras row = rext" "d_runs_total row = rtot"
         "d_extras_type row = extras_type" "d_wicket_kind row = wicket_kind"
         "d_player_out row = player_out" and
    acc': "total_wkts acc' = total_wkts acc + wicket_flag"
    by (elim reduce_delivery_Inr) simp
  from runs obtain rk dflt where rk:
    "py_or (dict_get kvs ''runs'' JNull) (JObj []) = JObj rk"
    "rb = dict_get rk ''batter'' (JInt 0)"
    "rext = dict_get rk ''extras'' (JInt 0)"
    "py_add rb rext = Inr dflt"
    "rtot = dict_get rk ''total'' dflt"
    by (rule ev_runs_Inr)
  have A: "\<exists>rk. py_or (dict_get kvs ''runs'' JNull) (JObj []) = JObj rk \<and>
        d_runs_batter row = (case map_of rk ''batter'' of None \<Rightarrow> JInt 0 | Some v \<Rightarrow> v) \<and>
        d_runs_extras row = (case map_of rk ''extras'' of None \<Rightarrow> JInt 0 | Some v \<Rightarrow> v) \<and>
        (case map_of rk ''total'' of
           Some t \<Rightarrow> d_runs_total row = t
         | None \<Rightarrow> py_add (d_runs_batter row) (d_runs_extras row) = Inr (d_runs_total row))"
    using rk row by (intro exI[of _ rk]) (simp add: dict_get_def split: option.splits)
  have B: "d_extras_type row =
       (case dict_get kvs ''extras'' JNull of
          JObj (kv # others) \<Rightarrow> JStr (fst kv)
        | _ \<Rightarrow> JNull)"
    using ev_extras_type_Inr[OF extras] row by simp
  from ev_wickets_Inr[OF wkts] row acc' have C:
    "(nonempty_list (py_or (dict_get kvs ''wickets'' JNull) (dict_get kvs ''wicket'' JNull)) \<longrightarrow>
        total_wkts acc' = total_wkts acc + 1 \<and>
        (\<exists>wk others.
           py_or (dict_get kvs ''wickets'' JNull) (dict_get kvs ''wicket'' JNull)
             = JList (JObj wk # others) \<and>
           d_wicket_kind row = dict_get wk ''kind'' JNull \<and>
           d_player_out row = dict_get wk ''player_out'' JNull)) \<and>
     (\<not> nonempty_list (py_or (dict_get kvs ''wickets'' JNull) (dict_get kvs ''wicket'' JNull)) \<longrightarrow>
        total_wkts acc' = total_wkts acc \<and> d_wicket_kind row = JNull \<and> d_player_out row = JNull)"
    by simp
  show ?thesis by (rule conjI[OF A conjI[OF B C]])
qed


theorem reduce_delivery_fields_witness:
  "reduce_delivery (JStr ''m'') 1 (JStr ''A'') (JStr ''B'') init_acc
     (JInt 3, JInt 2,
      JObj [(''batter'', JStr ''P''),
            (''runs'', JObj [(''batter'', JInt 1), (''extras'', JInt 2)]),
            (''extras'', JObj [(''wides'', JInt 1), (''noballs'', JInt 1)]),
            (''wickets'', JList [JObj [(''kind'', JStr ''bowled''), (''player_out'', JStr ''X'')],
                                 JObj [(''kind'', JStr ''run out''), (''player_out'', JStr ''Y'')]])])
   = Inr (\<lparr>d_match_id = JStr ''m'', d_inning_number = 1, d_overs = JInt 3, d_ball = JInt 2,
           d_batting_team = JStr ''A'', d_bowling_team = JStr ''B'',
           d_batter = JStr ''P'', d_bowler = JNull, d_non_striker = JNull,
           d_runs_batter = JInt 1, d_runs_extras = JInt 2, d_runs_total = JInt 3,
           d_extras_type = JStr ''wides'', d_wicket_kind = JStr ''bowled'',
           d_player_out = JStr ''X''\<rparr>,
          \<lparr>total_runs = 3, total_wkts = 1, last_over = JInt 3, last_ball = JInt 2\<rparr>)"
  (is "?lhs = Inr (?row, ?acc)")
proof -
  obtain row acc' where h: "?lhs = Inr (row, acc')"
    by (simp add: reduce_delivery_def ev_runs_def ev_extras_type_def ev_wickets_def
        int_iadd_def init_acc_def dict_get_def py_or_def)
  note T = reduce_delivery_fields[OF h]
  have ne: "nonempty_list (py_or (dict_get [(''batter'', JStr ''P''),
            (''runs'', JObj [(''batter'', JInt 1), (''extras'', JInt 2)]),
            (''extras'', JObj [(''wides'', JInt 1), (''noballs'', JInt 1)]),
            (''wickets'', JList [JObj [(''kind'', JStr ''bowled''), (''player_out'', JStr ''X'')],
                                 JObj [(''kind'', JStr ''run out''), (''player_out'', JStr ''Y'')]])] ''wickets'' JNull)
          (dict_get [(''batter'', JStr ''P''),
            (''runs'', JObj [(''batter'', JInt 1), (''extras'', JInt 2)]),
            (''extras'', JObj [(''wides'', JInt 1), (''noballs'', JInt 1)]),
            (''wickets'', JList [JObj [(''kind'', JStr ''bowled''), (''player_out'', JStr ''X'')],
                                 JObj [(''kind'', JStr ''run out''), (''player_out'', JStr ''Y'')]])] ''wicket'' JNull))"
    by (simp add: dict_get_def py_or_def)
  have "total_wkts acc' = total_wkts init_acc + 1"
    by (rule T[THEN conjunct2, THEN conjunct2, THEN conjunct1, THEN mp, OF ne, THEN conjunct1])
  then have "total_wkts acc' = 1" by (simp add: init_acc_def)
  with h show ?thesis
    by (simp add: reduce_delivery_def ev_runs_def ev_extras_type_def ev_wickets_def
        int_iadd_def init_acc_def dict_get_def py_or_def)
qed

text \<open>
  C4 as stated counts a wicket whenever one of the two fields is a non-empty list. An
  event whose \<^verbatim>\<open>wickets\<close> field is a non-empty dictionary and whose \<^verbatim>\<open>wicket\<close>
  field is a non-empty list records no wicket: the truthy \<^verbatim>\<open>wickets\<close> value is
  taken, and it is no list.
\<close>

theorem wicket_field_counterexample:
  "nonempty_list
     (dict_get [(''wickets'', JObj [(''kind'', JStr ''bowled'')]),
                (''wicket'', JList [JObj [(''kind'', JStr ''bowled''), (''player_out'', JStr ''X'')]])]
        ''wicket'' JNull) \<and>
   reduce_delivery (JStr ''m'') 1 (JStr ''A'') (JStr ''B'') init_acc
     (JInt 0, JInt 1,
      JObj [(''wickets'', JObj [(''kind'', JStr ''bowled'')]),
            (''wicket'', JList [JObj [(''kind'', JStr ''bowled''), (''player_out'', JStr ''X'')]])])
   = Inr (\<lparr>d_match_id = JStr ''m'', d_inning_number = 1, d_overs = JInt 0, d_ball = JInt 1,
           d_batting_team = JStr ''A'', d_bowling_team = JStr ''B'',
           d_batter = JNull, d_bowler = JNull, d_non_striker = JNull,
           d_runs_batter = JInt 0, d_runs_extras = JInt 0, d_runs_total = JInt 0,
           d_extras_type = JNull, d_wicket_kind = JNull, d_player_out = JNull\<rparr>,
          \<lparr>total_runs = 0, total_wkts = 0, last_over = JInt 0, last_ball = JInt 1\<rparr>)"
  by (simp add: reduce_delivery_def ev_runs_def ev_extras_type_def ev_wickets_def
        int_iadd_def init_acc_def dict_get_def py_or_def)

subsection \<open>The innings row\<close>

lemma foldl_add_sum_list:
  "foldl (\<lambda>a r. a + f r) (a0 :: int) xs = a0 + sum_list (map f xs)"
  by (induction xs arbitrary: a0) simp_all

lemma example_deliveries_reduce:
  "reduce_deliveries match_id n bt bw init_acc example_deliveries =
     Inr (map (\<lambda>(i, r).
            \<lparr>d_match_id = match_id, d_inning_number = n, d_overs = JInt 0, d_ball = JInt i,
             d_batting_team = bt, d_bowling_team = bw, d_batter = JNull, d_bowler = JNull,
             d_non_striker = JNull, d_runs_batter = JInt r, d_runs_extras = JInt 0,
             d_runs_total = JInt r, d_extras_type = JNull, d_wicket_kind = JNull,
             d_player_out = JNull\<rparr>) [(1, 0), (2, 4), (3, 1), (4, 6), (5, 0), (6, 2)],
          \<lparr>total_runs = 13, total_wkts = 0, last_over = JInt 0, last_ball = JInt 6\<rparr>)"
  by (simp add: example_deliveries_def batter_runs_event_def init_acc_def reduce_delivery_def
      ev_runs_def ev_extras_type_def ev_wickets_def int_iadd_def dict_get_def py_or_def)

lemma overs_examples:
  "float_add (round_double (of_int 0)) (float_truediv (round_double (of_int 6)) 6) = Finite 1"
  "float_add (round_double (of_int 0)) (float_truediv (round_double (of_int 1)) 6) =
     Finite (6004799503160661 / 36028797018963968)"
  "float_add (round_double (of_int 9007199254740993)) (float_truediv (round_double (of_int 0)) 6) =
     Finite 9007199254740992"
  by code_simp+

text \<open>
  C5. When an inning is reduced without raising, the delivery rows follow the
  deliveries in their order, the runs of the innings row are the left fold (the sum) of
  the totals of the delivery rows, the wickets are the number of deliveries that bear a
  wicket, and where the last over number and the last ball number that are not
  \<^verbatim>\<open>None\<close> (0 where there is none) are the integers \<open>fo\<close> and \<open>fb\<close>, the
  overs are the float \<^verbatim>\<open>fo + fb / 6.0\<close>: both integers are converted to doubles,
  and the quotient and then the sum are each rounded to the nearest double. The inning
  with the batter runs 0, 4, 1, 6, 0, 2 and no extras has 13 runs and no wicket.
\<close>

theorem innings_row_is_fold:
  "(reduce_inning match_id team1 team2 inn = Inr (irow, drows) \<longrightarrow>
      map d_overs drows = map fst (n_deliveries inn) \<and>
      map d_ball drows = map (fst \<circ> snd) (n_deliveries inn) \<and>
      i_runs irow = foldl (\<lambda>a r. a + num_value (d_runs_total r)) 0 drows \<and>
      i_wickets irow = int (length (filter wicket_bearing (n_deliveries inn))) \<and>
      (last_non_null (JInt 0) (map fst (n_deliveries inn)) = JInt fo \<and>
       last_non_null (JInt 0) (map (fst \<circ> snd) (n_deliveries inn)) = JInt fb \<longrightarrow>
         i_overs irow =
           Some (float_add (round_double (of_int fo))
                   (float_truediv (round_double (of_int fb)) 6)))) \<and>
   (\<exists>irow' drows'.
      reduce_inning match_id team1 team2
        \<lparr>n_inning_number = k, n_team = t, n_deliveries = example_deliveries\<rparr> = Inr (irow', drows') \<and>
      i_runs irow' = 13 \<and> i_wickets irow' = 0)"
proof (intro conjI impI)
  assume h: "reduce_inning match_id team1 team2 inn = Inr (irow, drows)"
  then obtain acc' where
    ds: "reduce_deliveries match_id (n_inning_number inn) (n_team inn)
           (if py_eq (n_team inn) team1 then team2 else team1) init_acc (n_deliveries inn)
         = Inr (drows, acc')" and
    ov: "overs_float (last_over acc') (last_ball acc') = Inr (i_overs irow)" and
    tot: "i_runs irow = total_runs acc'" "i_wickets irow = total_wkts acc'"
    by (rule reduce_inning_Inr)
  note inv = reduce_deliveries_Inr[OF ds]
  from inv show "map d_overs drows = map fst (n_deliveries inn)" by simp
  from inv show "map d_ball drows = map (fst \<circ> snd) (n_deliveries inn)" by simp
  from inv tot show "i_runs irow = foldl (\<lambda>a r. a + num_value (d_runs_total r)) 0 drows"
    by (simp add: foldl_add_sum_list init_acc_def)
  from inv tot show "i_wickets irow = int (length (filter wicket_bearing (n_deliveries inn)))"
    by (simp add: init_acc_def)
  assume "last_non_null (JInt 0) (map fst (n_deliveries inn)) = JInt fo \<and>
       last_non_null (JInt 0) (map (fst \<circ> snd) (n_deliveries inn)) = JInt fb"
  with inv have "last_over acc' = JInt fo" "last_ball acc' = JInt fb"
    by (simp_all add: init_acc_def)
  with ov have "overs_float (JInt fo) (JInt fb) = Inr (i_overs irow)" by simp
  then show "i_overs irow =
           Some (float_add (round_double (of_int fo))
                   (float_truediv (round_double (of_int fb)) 6))"
    by (rule overs_float_ints)
next
  show "\<exists>irow' drows'.
      reduce_inning match_id team1 team2
        \<lparr>n_inning_number = k, n_team = t, n_deliveries = example_deliveries\<rparr> = Inr (irow', drows') \<and>
      i_runs irow' = 13 \<and> i_wickets irow' = 0"
    by (simp add: reduce_inning_def example_deliveries_reduce overs_float_def py_or_def
        float_of_num_def float_of_int_def float_int_bound_def Let_def)
qed


theorem innings_row_is_fold_witness:
  "(case reduce_inning (JStr ''m'') (JStr ''A'') (JStr ''B'')
           \<lparr>n_inning_number = 1, n_team = JStr ''A'', n_deliveries = example_deliveries\<rparr> of
      Inl e \<Rightarrow> False
    | Inr (irow, drows) \<Rightarrow>
        map d_ball drows = [JInt 1, JInt 2, JInt 3, JInt 4, JInt 5, JInt 6] \<and>
        i_runs irow = foldl (\<lambda>a r. a + num_value (d_runs_total r)) 0 drows \<and>
        i_runs irow = 13 \<and> i_wickets irow = 0 \<and> i_overs irow = Some (Finite 1)) \<and>
   last_non_null (JInt 0) (map fst example_deliveries) = JInt 0 \<and>
   last_non_null (JInt 0) (map (fst \<circ> snd) example_deliveries) = JInt 6 \<and>
   (case reduce_inning (JStr ''m'') (JStr ''A'') (JStr ''B'')
           \<lparr>n_inning_number = 1, n_team = JStr ''A'',
            n_deliveries = [(JInt 0, JInt 1, batter_runs_event 1)]\<rparr> of
      Inl e \<Rightarrow> False
    | Inr (irow, drows) \<Rightarrow>
        i_runs irow = 1 \<and>
        i_overs irow = Some (Finite (6004799503160661 / 36028797018963968)))"
proof -
  let ?inn = "\<lparr>n_inning_number = 1, n_team = JStr ''A'', n_deliveries = example_deliveries\<rparr>"
  let ?one = "\<lparr>n_inning_number = 1, n_team = JStr ''A'',
            n_deliveries = [(JInt 0, JInt 1, batter_runs_event 1)]\<rparr>"
  obtain irow drows where
    h: "reduce_inning (JStr ''m'') (JStr ''A'') (JStr ''B'') ?inn = Inr (irow, drows)"
    by (simp add: reduce_inning_def example_deliveries_reduce overs_float_def py_or_def
        float_of_num_def float_of_int_def float_int_bound_def Let_def)
  have lo: "last_non_null (JInt 0) (map fst (n_deliveries ?inn)) = JInt 0"
    by (simp add: example_deliveries_def last_non_null_def)
  have lb: "last_non_null (JInt 0) (map (fst \<circ> snd) (n_deliveries ?inn)) = JInt 6"
    by (simp add: example_deliveries_def last_non_null_def)
  note T = innings_row_is_fold[of "JStr ''m''" "JStr ''A''" "JStr ''B''" ?inn irow drows 0 6,
      THEN conjunct1, THEN mp, OF h]
  from T have b: "map d_ball drows = map (fst \<circ> snd) (n_deliveries ?inn)"
    by (elim conjE)
  from T have r: "i_runs irow = foldl (\<lambda>a r. a + num_value (d_runs_total r)) 0 drows"
    by (elim conjE)
  from T have w: "i_wickets irow = int (length (filter wicket_bearing (n_deliveries ?inn)))"
    by (elim conjE)
  from T lo lb have "i_overs irow =
      Some (float_add (round_double (of_int 0)) (float_truediv (round_double (of_int 6)) 6))"
    by (elim conjE) (erule impE, rule conjI, assumption+)
  then have o: "i_overs irow = Some (Finite 1)" by (simp only: overs_examples)
  from b have b': "map d_ball drows = [JInt 1, JInt 2, JInt 3, JInt 4, JInt 5, JInt 6]"
    by (simp add: example_deliveries_def)
  from w have w': "i_wickets irow = 0"
    by (simp add: example_deliveries_def wicket_bearing_def batter_runs_event_def
        dict_get_def py_or_def)
  from h have r': "i_runs irow = 13"
    by (auto simp: reduce_inning_def example_deliveries_reduce py_bind_eq_Inr Let_def)
  from lo lb have l: "last_non_null (JInt 0) (map fst example_deliveries) = JInt 0"
    "last_non_null (JInt 0) (map (fst \<circ> snd) example_deliveries) = JInt 6" by simp_all
  obtain irow1 drows1 where
    h1: "reduce_inning (JStr ''m'') (JStr ''A'') (JStr ''B'') ?one = Inr (irow1, drows1)"
    by (simp add: reduce_inning_def batter_runs_event_def init_acc_def reduce_delivery_def
        ev_runs_def ev_extras_type_def ev_wickets_def int_iadd_def dict_get_def
        overs_float_def py_or_def float_of_num_def float_of_int_def float_int_bound_def Let_def)
  have lo1: "last_non_null (JInt 0) (map fst (n_deliveries ?one)) = JInt 0"
    by (simp add: last_non_null_def)
  have lb1: "last_non_null (JInt 0) (map (fst \<circ> snd) (n_deliveries ?one)) = JInt 1"
    by (simp add: last_non_null_def)
  note T1 = innings_row_is_fold[of "JStr ''m''" "JStr ''A''" "JStr ''B''" ?one irow1 drows1 0 1,
      THEN conjunct1, THEN mp, OF h1]
  from T1 lo1 lb1 have "i_overs irow1 =
      Some (float_add (round_double (of_int 0)) (float_truediv (round_double (of_int 1)) 6))"
    by (elim conjE) (erule impE, rule conjI, assumption+)
  then have o1: "i_overs irow1 = Some (Finite (6004799503160661 / 36028797018963968))"
    by (simp only: overs_examples)
  from h1 have r1: "i_runs irow1 = 1"
    by (auto simp: reduce_inning_def batter_runs_event_def init_acc_def reduce_delivery_def
        ev_runs_def ev_extras_type_def ev_wickets_def int_iadd_def dict_get_def
        py_bind_eq_Inr py_or_def Let_def)
  from h b' r r' w' o have A:
    "(case reduce_inning (JStr ''m'') (JStr ''A'') (JStr ''B'') ?inn of
        Inl e \<Rightarrow> False
      | Inr (irow, drows) \<Rightarrow>
          map d_ball drows = [JInt 1, JInt 2, JInt 3, JInt 4, JInt 5, JInt 6] \<and>
          i_runs irow = foldl (\<lambda>a r. a + num_value (d_runs_total r)) 0 drows \<and>
          i_runs irow = 13 \<and> i_wickets irow = 0 \<and> i_overs irow = Some (Finite 1))"
    by simp
  from h1 r1 o1 have B:
    "(case reduce_inning (JStr ''m'') (JStr ''A'') (JStr ''B'') ?one of
        Inl e \<Rightarrow> False
      | Inr (irow, drows) \<Rightarrow>
          i_runs irow = 1 \<and>
          i_overs irow = Some (Finite (6004799503160661 / 36028797018963968)))"
    by simp
  from A l B show ?thesis by (intro conjI)
qed

subsection \<open>The overs of an innings row\<close>

text \<open>
  C10. Every innings row that the transform returns has overs that are not
  \<^verbatim>\<open>None\<close>: \<^verbatim>\<open>last_over\<close> and \<^verbatim>\<open>last_ball\<close> start as 0 and are only replaced
  by values that are not \<^verbatim>\<open>None\<close>, so the test of line 307 always succeeds. An
  inning without deliveries has the overs 0.
\<close>

theorem overs_never_null:
  "(parse_match_json fromiso j match_path = Inr (m, irows, drows) \<longrightarrow>
      (\<forall>r \<in> set irows. i_overs r \<noteq> None)) \<and>
   (reduce_deliveries match_id n bt bw init_acc ds = Inr (rows, acc') \<longrightarrow>
      last_over acc' \<noteq> JNull \<and> last_ball acc' \<noteq> JNull) \<and>
   reduce_inning match_id team1 team2 \<lparr>n_inning_number = k, n_team = t, n_deliveries = []\<rparr> =
     Inr (\<lparr>i_match_id = match_id, i_inning_number = k, i_batting_team = t,
           i_bowling_team = (if py_eq t team1 then team2 else team1),
           i_runs = 0, i_wickets = 0, i_overs = Some (Finite 0)\<rparr>, [])"
proof (intro conjI impI ballI)
  fix r
  assume h: "parse_match_json fromiso j match_path = Inr (m, irows, drows)" and r: "r \<in> set irows"
  from h obtain ninns where
    "reduce_innings (m_match_id m) (m_team1 m) (m_team2 m) ninns = Inr (irows, drows)"
    by (rule parse_match_json_Inr)
  from reduce_innings_Inr[OF this r] obtain inn rs where
    "reduce_inning (m_match_id m) (m_team1 m) (m_team2 m) inn = Inr (r, rs)" by blast
  then show "i_overs r \<noteq> None" by (rule reduce_inning_overs_not_None)
next
  assume "reduce_deliveries match_id n bt bw init_acc ds = Inr (rows, acc')"
  from reduce_deliveries_Inr[OF this]
  show "last_over acc' \<noteq> JNull" "last_ball acc' \<noteq> JNull"
    by (simp_all add: init_acc_def last_non_null_not_null)
next
  show "reduce_inning match_id team1 team2 \<lparr>n_inning_number = k, n_team = t, n_deliveries = []\<rparr> =
     Inr (\<lparr>i_match_id = match_id, i_inning_number = k, i_batting_team = t,
           i_bowling_team = (if py_eq t team1 then team2 else team1),
           i_runs = 0, i_wickets = 0, i_overs = Some (Finite 0)\<rparr>, [])"
    by (simp add: reduce_inning_def init_acc_def overs_float_0 Let_def)
qed

theorem overs_never_null_witness:
  "parse_match_json iso_date_only single_team_record ''m.json'' =
     Inr (\<lparr>m_match_id = JStr ''m'', m_match_type = JNull, m_match_date = JNull,
           m_venue = JNull, m_city = JNull, m_country = JNull,
           m_team1 = JStr ''A'', m_team2 = JNull, m_toss_winner = JNull,
           m_toss_decision = JNull, m_winner = JNull, m_result = JNull, m_margin = JNull\<rparr>,
          [\<lparr>i_match_id = JStr ''m'', i_inning_number = 1,
            i_batting_team = JStr ''C'', i_bowling_team = JStr ''A'',
            i_runs = 0, i_wickets = 0, i_overs = Some (Finite 0)\<rparr>],
          []) \<and>
   i_overs \<lparr>i_match_id = JStr ''m'', i_inning_number = 1,
            i_batting_team = JStr ''C'', i_bowling_team = JStr ''A'',
            i_runs = 0, i_wickets = 0, i_overs = Some (Finite 0)\<rparr> \<noteq> None \<and>
   reduce_deliveries (JStr ''m'') 1 (JStr ''C'') (JStr ''A'') init_acc
     [(JNull, JNull, JObj []), (JInt 2, JNull, JObj [])] =
     Inr ([\<lparr>d_match_id = JStr ''m'', d_inning_number = 1, d_overs = JNull, d_ball = JNull,
            d_batting_team = JStr ''C'', d_bowling_team = JStr ''A'',
            d_batter = JNull, d_bowler = JNull, d_non_striker = JNull,
            d_runs_batter = JInt 0, d_runs_extras = JInt 0, d_runs_total = JInt 0,
            d_extras_type = JNull, d_wicket_kind = JNull, d_player_out = JNull\<rparr>,
           \<lparr>d_match_id = JStr ''m'', d_inning_number = 1, d_overs = JInt 2, d_ball = JNull,
            d_batting_team = JStr ''C'', d_bowling_team = JStr ''A'',
            d_batter = JNull, d_bowler = JNull, d_non_striker = JNull,
            d_runs_batter = JInt 0, d_runs_extras = JInt 0, d_runs_total = JInt 0,
            d_extras_type = JNull, d_wicket_kind = JNull, d_player_out = JNull\<rparr>],
          \<lparr>total_runs = 0, total_wkts = 0, last_over = JInt 2, last_ball = JInt 0\<rparr>) \<and>
   last_over \<lparr>total_runs = 0, total_wkts = 0, last_over = JInt 2, last_ball = JInt 0\<rparr> \<noteq> JNull \<and>
   last_ball \<lparr>total_runs = 0, total_wkts = 0, last_over = JInt 2, last_ball = JInt 0\<rparr> \<noteq> JNull"
  (is "?P = Inr (?m, [?r], []) \<and> _ \<and> ?D = Inr (?rows, ?acc) \<and> _ \<and> _")
proof -
  have h: "?P = Inr (?m, [?r], [])" by code_simp
  have d: "?D = Inr (?rows, ?acc)" by code_simp
  note T = overs_never_null[of iso_date_only single_team_record "''m.json''" ?m "[?r]" "[]"
      "JStr ''m''" 1 "JStr ''C''" "JStr ''A''" "[(JNull, JNull, JObj []), (JInt 2, JNull, JObj [])]"
      ?rows ?acc]
  from T[THEN conjunct1, THEN mp, OF h] have a: "i_overs ?r \<noteq> None"
    by (rule bspec) simp
  from T[THEN conjunct2, THEN conjunct1, THEN mp, OF d]
  have b: "last_over ?acc \<noteq> JNull \<and> last_ball ?acc \<noteq> JNull" .
  from h a d b show ?thesis by (intro conjI) (elim conjE, assumption)+
qed

subsection \<open>Team pairing\<close>

text \<open>
  C8, as the code has it. When the transform returns rows for a record whose team
  list is \<open>ts\<close>, the teams of the match row are the first two entries of \<open>ts\<close>
  followed by \<^verbatim>\<open>None\<close>, \<^verbatim>\<open>None\<close>; with one entry the second team is
  \<^verbatim>\<open>None\<close>. The bowling team of an innings row is the second team when the batting
  team equals the first team, and the first team in every other case: also when the
  batting team is neither of the two.
\<close>

theorem team_pairing:
  "parse_match_json fromiso (JObj jk) match_path = Inr (m, irows, drows) \<and>
   dict_get jk ''info'' (JObj []) = JObj ik \<and>
   dict_get ik ''teams'' (JList []) = JList ts \<longrightarrow>
     m_team1 m = (ts @ [JNull, JNull]) ! 0 \<and>
     m_team2 m = (ts @ [JNull, JNull]) ! 1 \<and>
     (length ts = 1 \<longrightarrow> m_team2 m = JNull) \<and>
     (\<forall>r \<in> set irows.
        (py_eq (i_batting_team r) (m_team1 m) \<longrightarrow> i_bowling_team r = m_team2 m) \<and>
        (\<not> py_eq (i_batting_team r) (m_team1 m) \<longrightarrow> i_bowling_team r = m_team1 m))"
proof (intro impI)
  assume a: "parse_match_json fromiso (JObj jk) match_path = Inr (m, irows, drows) \<and>
   dict_get jk ''info'' (JObj []) = JObj ik \<and>
   dict_get ik ''teams'' (JList []) = JList ts"
  then have h: "parse_match_json fromiso (JObj jk) match_path = Inr (m, irows, drows)"
    and ik: "dict_get jk ''info'' (JObj []) = JObj ik"
    and ts: "dict_get ik ''teams'' (JList []) = JList ts"
    by simp_all
  from h obtain jk' ik' ninns where
    j: "JObj jk = JObj jk'" and
    ik': "dict_get jk' ''info'' (JObj []) = JObj ik'" and
    tp: "team_pair (dict_get ik' ''teams'' (JList [])) = Inr (m_team1 m, m_team2 m)" and
    red: "reduce_innings (m_match_id m) (m_team1 m) (m_team2 m) ninns = Inr (irows, drows)"
    by (rule parse_match_json_Inr)
  from j ik ik' have "ik' = ik" by simp
  with tp ts have tp': "team_pair (JList ts) = Inr (m_team1 m, m_team2 m)" by simp
  from team_pair_Inr[OF tp'] have
    t1: "m_team1 m = (ts @ [JNull, JNull]) ! 0" and t2: "m_team2 m = (ts @ [JNull, JNull]) ! 1"
    by simp_all
  have single: "length ts = 1 \<longrightarrow> m_team2 m = JNull"
  proof
    assume "length ts = 1"
    then obtain a where "ts = [a]" by (cases ts) auto
    with t2 show "m_team2 m = JNull" by simp
  qed
  have bowl: "\<forall>r \<in> set irows.
        (py_eq (i_batting_team r) (m_team1 m) \<longrightarrow> i_bowling_team r = m_team2 m) \<and>
        (\<not> py_eq (i_batting_team r) (m_team1 m) \<longrightarrow> i_bowling_team r = m_team1 m)"
  proof
    fix r assume "r \<in> set irows"
    from reduce_innings_Inr[OF red this] obtain inn rs where
      one: "reduce_inning (m_match_id m) (m_team1 m) (m_team2 m) inn = Inr (r, rs)" by blast
    from one have "i_batting_team r = n_team inn" by (rule reduce_inning_Inr)
    moreover from one have
      "i_bowling_team r = (if py_eq (n_team inn) (m_team1 m) then m_team2 m else m_team1 m)"
      by (rule reduce_inning_Inr)
    ultimately show "(py_eq (i_batting_team r) (m_team1 m) \<longrightarrow> i_bowling_team r = m_team2 m) \<and>
        (\<not> py_eq (i_batting_team r) (m_team1 m) \<longrightarrow> i_bowling_team r = m_team1 m)"
      by simp
  qed
  from t1 t2 single bowl show "m_team1 m = (ts @ [JNull, JNull]) ! 0 \<and>
     m_team2 m = (ts @ [JNull, JNull]) ! 1 \<and>
     (length ts = 1 \<longrightarrow> m_team2 m = JNull) \<and>
     (\<forall>r \<in> set irows.
        (py_eq (i_batting_team r) (m_team1 m) \<longrightarrow> i_bowling_team r = m_team2 m) \<and>
        (\<not> py_eq (i_batting_team r) (m_team1 m) \<longrightarrow> i_bowling_team r = m_team1 m))"
    by (intro conjI)
qed

theorem team_pairing_witness:
  "parse_match_json iso_date_only single_team_record ''m.json'' =
     Inr (\<lparr>m_match_id = JStr ''m'', m_match_type = JNull, m_match_date = JNull,
           m_venue = JNull, m_city = JNull, m_country = JNull,
           m_team1 = JStr ''A'', m_team2 = JNull, m_toss_winner = JNull,
           m_toss_decision = JNull, m_winner = JNull, m_result = JNull, m_margin = JNull\<rparr>,
          [\<lparr>i_match_id = JStr ''m'', i_inning_number = 1,
            i_batting_team = JStr ''C'', i_bowling_team = JStr ''A'',
            i_runs = 0, i_wickets = 0, i_overs = Some (Finite 0)\<rparr>],
          []) \<and>
   length [JStr ''A''] = 1 \<and>
   m_team2 \<lparr>m_match_id = JStr ''m'', m_match_type = JNull, m_match_date = JNull,
           m_venue = JNull, m_city = JNull, m_country = JNull,
           m_team1 = JStr ''A'', m_team2 = JNull, m_toss_winner = JNull,
           m_toss_decision = JNull, m_winner = JNull, m_result = JNull, m_margin = JNull\<rparr> = JNull \<and>
   \<not> py_eq (JStr ''C'') (JStr ''A'') \<and>
   i_bowling_team \<lparr>i_match_id = JStr ''m'', i_inning_number = 1,
            i_batting_team = JStr ''C'', i_bowling_team = JStr ''A'',
            i_runs = 0, i_wickets = 0, i_overs = Some (Finite 0)\<rparr> = JStr ''A''"
  (is "?P = Inr (?m, [?r], []) \<and> _")
proof -
  let ?jk = "[(''info'', JObj [(''teams'', JList [JStr ''A''])]),
           (''innings'', JList [JObj [(''team'', JStr ''C''), (''overs'', JList [])]])]"
  let ?ik = "[(''teams'', JList [JStr ''A''])]"
  have h: "parse_match_json iso_date_only (JObj ?jk) ''m.json'' = Inr (?m, [?r], [])"
    using single_team_record_rows by (simp add: single_team_record_def)
  have i: "dict_get ?jk ''info'' (JObj []) = JObj ?ik" by (simp add: dict_get_def)
  have t: "dict_get ?ik ''teams'' (JList []) = JList [JStr ''A'']" by (simp add: dict_get_def)
  note T = team_pairing[of iso_date_only ?jk "''m.json''" ?m "[?r]" "[]" ?ik "[JStr ''A'']",
      THEN mp, OF conjI[OF h conjI[OF i t]]]
  have l: "length [JStr ''A''] = 1" by simp
  from T have "length [JStr ''A''] = 1 \<longrightarrow> m_team2 ?m = JNull" by (elim conjE)
  with l have a: "m_team2 ?m = JNull" by (rule rev_mp)
  have ne: "\<not> py_eq (JStr ''C'') (JStr ''A'')" by simp
  from T have "\<forall>r \<in> set [?r].
        (py_eq (i_batting_team r) (m_team1 ?m) \<longrightarrow> i_bowling_team r = m_team2 ?m) \<and>
        (\<not> py_eq (i_batting_team r) (m_team1 ?m) \<longrightarrow> i_bowling_team r = m_team1 ?m)"
    by (elim conjE)
  then have b: "i_bowling_team ?r = JStr ''A''" by simp
  from single_team_record_rows l a ne b show ?thesis by (intro conjI)
qed

text \<open>
  C8 as stated gives \<^verbatim>\<open>None\<close> as the bowling team of an inning whose batting team
  is neither of the recorded teams. For the record with the team list \<^verbatim>\<open>["A"]\<close> and
  an inning of team \<^verbatim>\<open>C\<close>, which is neither \<^verbatim>\<open>A\<close> nor \<^verbatim>\<open>None\<close>, the bowling
  team is \<^verbatim>\<open>A\<close>.
\<close>

theorem bowling_team_counterexample:
  "\<not> py_eq (JStr ''C'') (JStr ''A'') \<and> \<not> py_eq (JStr ''C'') JNull \<and>
   parse_match_json iso_date_only single_team_record ''m.json'' =
     Inr (\<lparr>m_match_id = JStr ''m'', m_match_type = JNull, m_match_date = JNull,
           m_venue = JNull, m_city = JNull, m_country = JNull,
           m_team1 = JStr ''A'', m_team2 = JNull, m_toss_winner = JNull,
           m_toss_decision = JNull, m_winner = JNull, m_result = JNull, m_margin = JNull\<rparr>,
          [\<lparr>i_match_id = JStr ''m'', i_inning_number = 1,
            i_batting_team = JStr ''C'', i_bowling_team = JStr ''A'',
            i_runs = 0, i_wickets = 0, i_overs = Some (Finite 0)\<rparr>],
          []) \<and>
   JStr ''A'' \<noteq> JNull"
  by code_simp

subsection \<open>Malformed and empty inning entries\<close>

text \<open>
  C6. In Dialect A an inning entry that is an empty dictionary or no dictionary is
  passed over: it gives no normalized inning, and the loop goes on with the next entry;
  the record with such entries after its first inning gives one innings row. In
  Dialect B there is no such test. There the empty dictionary after the first inning
  gives a second innings row, with no team, no runs and no wickets, and the entry
  \<^verbatim>\<open>null\<close> raises AttributeError, which ends the transform of the record.
\<close>

theorem malformed_inning_entries:
  "parse_v1_loop idx (JObj [] # rest) = parse_v1_loop (idx + 1) rest \<and>
   parse_v1_loop idx (JNull # rest) = parse_v1_loop (idx + 1) rest \<and>
   parse_v1_loop idx (JBool b # rest) = parse_v1_loop (idx + 1) rest \<and>
   parse_v1_loop idx (JInt i # rest) = parse_v1_loop (idx + 1) rest \<and>
   parse_v1_loop idx (JStr s # rest) = parse_v1_loop (idx + 1) rest \<and>
   parse_v1_loop idx (JList xs # rest) = parse_v1_loop (idx + 1) rest \<and>
   parse_match_json iso_date_only a_record_with_empty_entries ''m.json'' =
     Inr (\<lparr>m_match_id = JStr ''m'', m_match_type = JNull, m_match_date = JNull,
           m_venue = JNull, m_city = JNull, m_country = JNull,
           m_team1 = JStr ''A'', m_team2 = JStr ''B'', m_toss_winner = JNull,
           m_toss_decision = JNull, m_winner = JNull, m_result = JNull, m_margin = JNull\<rparr>,
          [\<lparr>i_match_id = JStr ''m'', i_inning_number = 1,
            i_batting_team = JStr ''A'', i_bowling_team = JStr ''B'',
            i_runs = 0, i_wickets = 0, i_overs = Some (Finite 0)\<rparr>],
          []) \<and>
   parse_match_json iso_date_only b_record_with_empty_entry ''m.json'' =
     Inr (\<lparr>m_match_id = JStr ''m'', m_match_type = JNull, m_match_date = JNull,
           m_venue = JNull, m_city = JNull, m_country = JNull,
           m_team1 = JStr ''A'', m_team2 = JStr ''B'', m_toss_winner = JNull,
           m_toss_decision = JNull, m_winner = JNull, m_result = JNull, m_margin = JNull\<rparr>,
          [\<lparr>i_match_id = JStr ''m'', i_inning_number = 1,
            i_batting_team = JStr ''A'', i_bowling_team = JStr ''B'',
            i_runs = 0, i_wickets = 0, i_overs = Some (Finite 0)\<rparr>,
           \<lparr>i_match_id = JStr ''m'', i_inning_number = 2,
            i_batting_team = JNull, i_bowling_team = JStr ''A'',
            i_runs = 0, i_wickets = 0, i_overs = Some (Finite 0)\<rparr>],
          []) \<and>
   parse_match_json iso_date_only b_record_with_null_entry ''m.json'' = Inl AttributeError"
proof (intro conjI)
  show "parse_match_json iso_date_only a_record_with_empty_entries ''m.json'' =
     Inr (\<lparr>m_match_id = JStr ''m'', m_match_type = JNull, m_match_date = JNull,
           m_venue = JNull, m_city = JNull, m_country = JNull,
           m_team1 = JStr ''A'', m_team2 = JStr ''B'', m_toss_winner = JNull,
           m_toss_decision = JNull, m_winner = JNull, m_result = JNull, m_margin = JNull\<rparr>,
          [\<lparr>i_match_id = JStr ''m'', i_inning_number = 1,
            i_batting_team = JStr ''A'', i_bowling_team = JStr ''B'',
            i_runs = 0, i_wickets = 0, i_overs = Some (Finite 0)\<rparr>],
          [])"
    by code_simp
  show "parse_match_json iso_date_only b_record_with_empty_entry ''m.json'' =
     Inr (\<lparr>m_match_id = JStr ''m'', m_match_type = JNull, m_match_date = JNull,
           m_venue = JNull, m_city = JNull, m_country = JNull,
           m_team1 = JStr ''A'', m_team2 = JStr ''B'', m_toss_winner = JNull,
           m_toss_decision = JNull, m_winner = JNull, m_result = JNull, m_margin = JNull\<rparr>,
          [\<lparr>i_match_id = JStr ''m'', i_inning_number = 1,
            i_batting_team = JStr ''A'', i_bowling_team = JStr ''B'',
            i_runs = 0, i_wickets = 0, i_overs = Some (Finite 0)\<rparr>,
           \<lparr>i_match_id = JStr ''m'', i_inning_number = 2,
            i_batting_team = JNull, i_bowling_team = JStr ''A'',
            i_runs = 0, i_wickets = 0, i_overs = Some (Finite 0)\<rparr>],
          [])"
    by code_simp
  show "parse_match_json iso_date_only b_record_with_null_entry ''m.json'' = Inl AttributeError"
    by code_simp
qed simp_all

section \<open>Dialect independence\<close>

lemma enumerate_from_Nil [simp]: "enumerate_from k [] = []"
  by (simp add: enumerate_from_def)

lemma enumerate_from_Cons [simp]:
  "enumerate_from k (x # xs) = (int k, x) # enumerate_from (Suc k) xs"
proof -
  have "[k ..< k + length (x # xs)] = k # [Suc k ..< Suc k + length xs]"
    by (simp add: upt_conv_Cons del: upt_Suc)
  then show ?thesis by (simp add: enumerate_from_def del: upt_Suc)
qed

lemma v1_deliveries_append:
  "v1_deliveries (xs @ ys) = v1_deliveries xs @ v1_deliveries ys"
proof (induction xs)
  case Nil
  then show ?case by simp
next
  case (Cons e es)
  then show ?case
    by (cases e) (auto split: list.splits prod.splits)
qed

lemma v1_deliveries_labelled:
  "list_all (\<lambda>(i, lbl). split_over_ball lbl = (Some over, Some i)) (enumerate_from k (map fst balls))
   \<Longrightarrow> v1_deliveries (map (\<lambda>(lbl, ev). JObj [(lbl, ev)]) balls) =
       map (\<lambda>(i, ev). (JInt over, JInt i, ev)) (enumerate_from k (map snd balls))"
proof (induction balls arbitrary: k)
  case Nil
  then show ?case by simp
next
  case (Cons b bs)
  obtain lbl ev where b: "b = (lbl, ev)" by (cases b) auto
  from Cons.prems have here: "split_over_ball lbl = (Some over, Some (int k))"
    and later: "list_all (\<lambda>(i, lbl). split_over_ball lbl = (Some over, Some i))
                  (enumerate_from (Suc k) (map fst bs))"
    by (simp_all add: b)
  from Cons.IH[OF later] here show ?case
    by (simp add: b opt_int_def)
qed

lemma v1_deliveries_over:
  "labels_agree ov \<Longrightarrow>
   v1_deliveries (dialect_a_over ov) =
     map (\<lambda>(i, ev). (JInt (fst ov), JInt i, ev)) (enumerate_from 1 (map snd (snd ov)))"
  by (cases ov) (simp add: labels_agree_def dialect_a_over_def v1_deliveries_labelled)

lemma v2_over_dialect_b:
  "v2_over (dialect_b_over ov) =
     Inr (map (\<lambda>(i, ev). (JInt (fst ov), JInt i, ev)) (enumerate_from 1 (map snd (snd ov))))"
  by (cases ov) (simp add: v2_over_def dialect_b_over_def dict_get_def)

lemma v2_overs_dialect_b:
  "list_all labels_agree overs \<Longrightarrow>
   v2_overs (map dialect_b_over overs) = Inr (v1_deliveries (concat (map dialect_a_over overs)))"
proof (induction overs)
  case Nil
  then show ?case by simp
next
  case (Cons ov overs)
  then show ?case
    by (simp add: v2_over_dialect_b v1_deliveries_append v1_deliveries_over)
qed

lemma parse_loops_agree:
  "same_logical_match lis \<Longrightarrow>
   parse_v1_loop idx (map dialect_a_inning lis) = parse_v2_loop idx (map dialect_b_inning lis)"
proof (induction lis arbitrary: idx)
  case Nil
  then show ?case by simp
next
  case (Cons li lis)
  obtain name tm overs where li: "li = (name, tm, overs)" by (cases li) auto
  from Cons.prems have ov: "list_all labels_agree overs" and rest: "same_logical_match lis"
    by (simp_all add: same_logical_match_def li)
  from Cons.IH[OF rest] v2_overs_dialect_b[OF ov] show ?case
    by (simp add: li dialect_a_inning_def dialect_b_inning_def dict_get_def)
qed

lemma dialect_a_inning_not_v2: "\<not> is_v2_first (dialect_a_inning li)"
  by (cases li) (auto simp: dialect_a_inning_def has_key_def split: if_splits)

lemma dialect_b_inning_v2: "is_v2_first (dialect_b_inning li)"
  by (cases li) (simp add: dialect_b_inning_def has_key_def)

lemma detect_dialects_agree:
  assumes "same_logical_match lis"
  shows "detect_and_parse_innings (JList (map dialect_a_inning lis)) =
         detect_and_parse_innings (JList (map dialect_b_inning lis))"
proof (cases lis)
  case Nil
  then show ?thesis by (simp add: detect_and_parse_innings_def)
next
  case (Cons li rest)
  with parse_loops_agree[OF assms, of 1] show ?thesis
    by (simp add: detect_and_parse_innings_def dialect_a_inning_not_v2 dialect_b_inning_v2
        parse_v1_innings_def parse_v2_innings_def)
qed

text \<open>
  C1. For a logical match whose ball labels in Dialect A name the over and the
  position that Dialect B gives each ball, the transform of the Dialect A record and
  the transform of the Dialect B record have the same outcome: the same match row,
  innings rows and delivery rows, or the same exception. In particular both give, for
  every inning, the same number of delivery rows, the same runs and the same wickets.
\<close>

theorem dialect_independence:
  "same_logical_match lis \<longrightarrow>
     parse_match_json fromiso (dialect_a_record info lis) match_path =
       parse_match_json fromiso (dialect_b_record info lis) match_path \<and>
     map_sum id inning_summaries (parse_match_json fromiso (dialect_a_record info lis) match_path) =
       map_sum id inning_summaries (parse_match_json fromiso (dialect_b_record info lis) match_path)"
proof
  assume "same_logical_match lis"
  then have d: "detect_and_parse_innings (JList (map dialect_a_inning lis)) =
         detect_and_parse_innings (JList (map dialect_b_inning lis))"
    by (rule detect_dialects_agree)
  have "parse_match_json fromiso (dialect_a_record info lis) match_path =
       parse_match_json fromiso (dialect_b_record info lis) match_path"
    by (simp add: parse_match_json_def dialect_a_record_def dialect_b_record_def dict_get_def d)
  then show "parse_match_json fromiso (dialect_a_record info lis) match_path =
       parse_match_json fromiso (dialect_b_record info lis) match_path \<and>
     map_sum id inning_summaries (parse_match_json fromiso (dialect_a_record info lis) match_path) =
       map_sum id inning_summaries (parse_match_json fromiso (dialect_b_record info lis) match_path)"
    by simp
qed

theorem dialect_independence_witness:
  "same_logical_match example_match \<and>
   parse_match_json iso_date_only (dialect_a_record example_info example_match) ''m.json'' =
     parse_match_json iso_date_only (dialect_b_record example_info example_match) ''m.json'' \<and>
   map_sum id inning_summaries
     (parse_match_json iso_date_only (dialect_a_record example_info example_match) ''m.json'') =
     Inr [(1, 3, 5, 1)] \<and>
   map_sum id inning_summaries
     (parse_match_json iso_date_only (dialect_b_record example_info example_match) ''m.json'') =
     Inr [(1, 3, 5, 1)]"
proof -
  have s: "same_logical_match example_match" by code_simp
  have a: "map_sum id inning_summaries
     (parse_match_json iso_date_only (dialect_a_record example_info example_match) ''m.json'') =
     Inr [(1, 3, 5, 1)]" by code_simp
  note T = dialect_independence[of example_match iso_date_only example_info "''m.json''",
      THEN mp, OF s]
  from T have e: "parse_match_json iso_date_only (dialect_a_record example_info example_match) ''m.json'' =
     parse_match_json iso_date_only (dialect_b_record example_info example_match) ''m.json''"
    by (rule conjunct1)
  from T a have b: "map_sum id inning_summaries
     (parse_match_json iso_date_only (dialect_b_record example_info example_match) ''m.json'') =
     Inr [(1, 3, 5, 1)]" by simp
  from s e a b show ?thesis by (intro conjI)
qed

end
